theory Spec2Isabelle
  imports Complex_Main "HOL-Library.Log_Nat"
begin

section \<open>JavaScript values\<close>

text \<open>
  The JSON document, the table data and every value written into a cell are
  untyped JavaScript values (\<^verbatim>\<open>any\<close> in the TypeScript signatures).  Numbers
  are kept as exact rationals, with \<^verbatim>\<open>NaN\<close> as a value of its own; an object
  is the list of its own properties, the first binding of a key being the
  one that counts.  A property read can also reach what the runtime has built
  in, through the prototype of the value read: \<^verbatim>\<open>JBuiltin\<close> is such a function
  or prototype object, named by the expression that denotes it
  (\<^verbatim>\<open>Object\<close>, \<^verbatim>\<open>Object.prototype\<close>, \<^verbatim>\<open>Array.prototype.map\<close>).
\<close>

datatype jsval =
    JUndefined
  | JNull
  | JBool bool
  | JNum rat
  | JNaN
  | JStr string
  | JArr "jsval list"
  | JObj "(string \<times> jsval) list"
  | JBuiltin string

text \<open>What \<^verbatim>\<open>if (v)\<close>, \<^verbatim>\<open>v && \<dots>\<close> and \<^verbatim>\<open>v || \<dots>\<close> test.\<close>

fun truthy :: "jsval \<Rightarrow> bool" where
  "truthy JUndefined = False"
| "truthy JNull = False"
| "truthy (JBool b) = b"
| "truthy (JNum n) = (n \<noteq> 0)"
| "truthy JNaN = False"
| "truthy (JStr s) = (s \<noteq> [])"
| "truthy (JArr xs) = True"
| "truthy (JObj kvs) = True"
| "truthy (JBuiltin p) = True"

text \<open>\<^verbatim>\<open>a || b\<close> on values.\<close>

definition js_or :: "jsval \<Rightarrow> jsval \<Rightarrow> jsval" where
  "js_or a b = (if truthy a then a else b)"

text \<open>What can be thrown: an \<^verbatim>\<open>Error\<close>, a \<^verbatim>\<open>TypeError\<close> of the runtime (both
  are instances of \<^verbatim>\<open>Error\<close> and carry a message), or any other value.\<close>

datatype js_thrown =
    JsError string
  | JsTypeError string
  | JsNonError jsval

definition instanceof_Error :: "js_thrown \<Rightarrow> bool" where
  "instanceof_Error e = (case e of JsNonError v \<Rightarrow> False | _ \<Rightarrow> True)"

definition message :: "js_thrown \<Rightarrow> string" where
  "message e = (case e of JsError m \<Rightarrow> m | JsTypeError m \<Rightarrow> m | JsNonError v \<Rightarrow> [])"

subsection \<open>Numbers\<close>

text \<open>
  A JavaScript number is an IEEE 754 double, with 53 significant bits: the
  result of an arithmetic operation is the double nearest to the exact
  result, the one with the even significand when two are equally near.  The
  numbers met here lie far below the overflow threshold and above the
  subnormal range, so that a double is a multiple of the power of two that
  lies 52 places below its leading bit.
\<close>

text \<open>The integer nearest to a rational, the even one of two.\<close>

definition round_half_even :: "rat \<Rightarrow> int" where
  "round_half_even y =
     (let f = \<lfloor>y\<rfloor>; r = y - of_int f
      in if r < 1 / 2 then f else if 1 / 2 < r then f + 1 else if even f then f else f + 1)"

text \<open>The binary exponent of a positive rational \<^verbatim>\<open>x\<close>: the \<^verbatim>\<open>e\<close> with
  2^e \<le> x < 2^(e+1), found from the bit lengths of numerator and denominator.\<close>

definition exponent :: "rat \<Rightarrow> int" where
  "exponent x =
     (case quotient_of x of
        (p, q) \<Rightarrow> let d = bitlen p - bitlen q in if 2 powi d \<le> x then d else d - 1)"

text \<open>The double nearest to a rational.\<close>

definition toDouble :: "rat \<Rightarrow> rat" where
  "toDouble x =
     (if x = 0 then 0
      else let u = 2 powi (exponent \<bar>x\<bar> - 52)
           in sgn x * of_int (round_half_even (\<bar>x\<bar> / u)) * u)"

text \<open>The double nearest to an integer, which is an integer.\<close>

definition dbl :: "int \<Rightarrow> int" where
  "dbl n = \<lfloor>toDouble (of_int n)\<rfloor>"

subsection \<open>Decimal numerals\<close>

definition is_upper :: "char \<Rightarrow> bool" where
  "is_upper c \<longleftrightarrow>
     (of_char CHR ''A'' :: int) \<le> of_char c \<and> (of_char c :: int) \<le> of_char CHR ''Z''"

definition is_digit :: "char \<Rightarrow> bool" where
  "is_digit c \<longleftrightarrow>
     (of_char CHR ''0'' :: int) \<le> of_char c \<and> (of_char c :: int) \<le> of_char CHR ''9''"

text \<open>\<^verbatim>\<open>toLowerCase\<close> on one character.\<close>

definition to_lower :: "char \<Rightarrow> char" where
  "to_lower c = (if is_upper c then char_of ((of_char c :: int) + 32) else c)"

text \<open>\<^verbatim>\<open>parseInt\<close> on a string of decimal digits: the double nearest to the
  number that the digits denote.\<close>

definition parseInt :: "string \<Rightarrow> int" where
  "parseInt s = dbl (foldl (\<lambda>n c. n * 10 + (of_char c - of_char CHR ''0'')) 0 s)"

text \<open>The decimal text of a natural number, as a template literal prints it.\<close>

function show_nat :: "nat \<Rightarrow> string" where
  "show_nat n =
     (if n < 10 then [char_of (of_char CHR ''0'' + n)]
      else show_nat (n div 10) @ [char_of (of_char CHR ''0'' + n mod 10)])"
  by pat_completeness auto
termination
  by (relation "measure id") auto

declare show_nat.simps [simp del]

definition show_int :: "int \<Rightarrow> string" where
  "show_int i = (if i < 0 then CHR ''-'' # show_nat (nat (- i)) else show_nat (nat i))"

subsection \<open>Property access\<close>

text \<open>A key is an array index when it is the decimal text of a number.\<close>

definition is_index :: "string \<Rightarrow> bool" where
  "is_index key \<longleftrightarrow>
     key \<noteq> [] \<and> list_all is_digit key \<and> (key = ''0'' \<or> hd key \<noteq> CHR ''0'')"

text \<open>
  The members that a value inherits from the prototype of its constructor
  and, behind it, from \<^verbatim>\<open>Object.prototype\<close>, as Node.js 20 has them.  All are
  functions, except \<^verbatim>\<open>__proto__\<close>, which gives the prototype itself.
\<close>

definition Object_members :: "string list" where
  "Object_members =
     [''__defineGetter__'', ''__defineSetter__'', ''hasOwnProperty'', ''__lookupGetter__'',
      ''__lookupSetter__'', ''isPrototypeOf'', ''propertyIsEnumerable'', ''toString'',
      ''valueOf'', ''toLocaleString'']"

definition Array_members :: "string list" where
  "Array_members =
     [''at'', ''concat'', ''copyWithin'', ''fill'', ''find'', ''findIndex'', ''findLast'',
      ''findLastIndex'', ''lastIndexOf'', ''pop'', ''push'', ''reverse'', ''shift'',
      ''unshift'', ''slice'', ''sort'', ''splice'', ''includes'', ''indexOf'', ''join'',
      ''keys'', ''entries'', ''values'', ''forEach'', ''filter'', ''flat'', ''flatMap'',
      ''map'', ''every'', ''some'', ''reduce'', ''reduceRight'', ''toLocaleString'',
      ''toString'', ''toReversed'', ''toSorted'', ''toSpliced'', ''with'']"

definition String_members :: "string list" where
  "String_members =
     [''anchor'', ''at'', ''big'', ''blink'', ''bold'', ''charAt'', ''charCodeAt'',
      ''codePointAt'', ''concat'', ''endsWith'', ''fontcolor'', ''fontsize'', ''fixed'',
      ''includes'', ''indexOf'', ''isWellFormed'', ''italics'', ''lastIndexOf'', ''link'',
      ''localeCompare'', ''match'', ''matchAll'', ''normalize'', ''padEnd'', ''padStart'',
      ''repeat'', ''replace'', ''replaceAll'', ''search'', ''slice'', ''small'', ''split'',
      ''strike'', ''sub'', ''substr'', ''substring'', ''sup'', ''startsWith'', ''toString'',
      ''toWellFormed'', ''trim'', ''trimStart'', ''trimEnd'', ''toLocaleLowerCase'',
      ''toLocaleUpperCase'', ''toLowerCase'', ''toUpperCase'', ''valueOf'']"

definition Number_members :: "string list" where
  "Number_members =
     [''toExponential'', ''toFixed'', ''toPrecision'', ''toString'', ''valueOf'',
      ''toLocaleString'']"

definition Boolean_members :: "string list" where
  "Boolean_members = [''toString'', ''valueOf'']"

definition prototype_members :: "string \<Rightarrow> string list" where
  "prototype_members c =
     (if c = ''Array'' then Array_members
      else if c = ''String'' then String_members
      else if c = ''Number'' then Number_members
      else if c = ''Boolean'' then Boolean_members
      else [])"

text \<open>What a value made by the constructor \<^verbatim>\<open>c\<close> inherits under a key;
  \<^verbatim>\<open>trimLeft\<close> and \<^verbatim>\<open>trimRight\<close> are second names of one function each.\<close>

definition inherited :: "string \<Rightarrow> string \<Rightarrow> jsval" where
  "inherited c key =
     (if key = ''constructor'' then JBuiltin c
      else if key = ''__proto__'' then JBuiltin (c @ ''.prototype'')
      else if c = ''String'' \<and> key = ''trimLeft'' then JBuiltin ''String.prototype.trimStart''
      else if c = ''String'' \<and> key = ''trimRight'' then JBuiltin ''String.prototype.trimEnd''
      else if key \<in> set (prototype_members c) then JBuiltin (c @ ''.prototype.'' @ key)
      else if key \<in> set Object_members then JBuiltin (''Object.prototype.'' @ key)
      else JUndefined)"

text \<open>The last name in the expression that denotes a built-in.\<close>

definition builtin_name :: "string \<Rightarrow> string" where
  "builtin_name p = rev (takeWhile (\<lambda>c. c \<noteq> CHR ''.'') (rev p))"

text \<open>
  \<^verbatim>\<open>v[key]\<close> for a value \<^verbatim>\<open>v\<close> other than \<^verbatim>\<open>null\<close> and \<^verbatim>\<open>undefined\<close>: the own
  property of an object, the element or the length of an array, the
  character or the length of a string, and behind these the inherited
  member; \<^verbatim>\<open>undefined\<close> when there is none.  Of a built-in function the
  \<^verbatim>\<open>name\<close> is kept and nothing else, so that the model covers the reads of
  properties of documents, not the reads of properties of built-in functions.
\<close>

fun lookup :: "jsval \<Rightarrow> string \<Rightarrow> jsval" where
  "lookup (JObj kvs) key =
     (case map_of kvs key of Some v \<Rightarrow> v | None \<Rightarrow> inherited ''Object'' key)"
| "lookup (JArr xs) key =
     (if is_index key then
        (if nat (parseInt key) < length xs then xs ! nat (parseInt key) else JUndefined)
      else if key = ''length'' then JNum (of_nat (length xs))
      else inherited ''Array'' key)"
| "lookup (JStr s) key =
     (if is_index key then
        (if nat (parseInt key) < length s then JStr [s ! nat (parseInt key)] else JUndefined)
      else if key = ''length'' then JNum (of_nat (length s))
      else inherited ''String'' key)"
| "lookup (JNum n) key = inherited ''Number'' key"
| "lookup JNaN key = inherited ''Number'' key"
| "lookup (JBool b) key = inherited ''Boolean'' key"
| "lookup (JBuiltin p) key =
     (if builtin_name p = ''prototype'' then
        (let c = take (length p - 10) p
         in if key = ''__proto__''
            then (if c = ''Object'' then JNull else JBuiltin ''Object.prototype'')
            else if key = ''length'' \<and> (c = ''Array'' \<or> c = ''String'') then JNum 0
            else inherited c key)
      else if key = ''name'' then JStr (builtin_name p)
      else JUndefined)"
| "lookup v key = JUndefined"


text \<open>\<^verbatim>\<open>v[key]\<close> in general: reading a property of \<^verbatim>\<open>null\<close> or \<^verbatim>\<open>undefined\<close>
  raises a \<^verbatim>\<open>TypeError\<close> (the message is V8's).\<close>

definition getProp :: "jsval \<Rightarrow> string \<Rightarrow> js_thrown + jsval" where
  "getProp v key =
     (if v = JNull then
        Inl (JsTypeError (''Cannot read properties of null (reading '' @ [CHR 0x27] @ key @ [CHR 0x27] @ '')''))
      else if v = JUndefined then
        Inl (JsTypeError (''Cannot read properties of undefined (reading '' @ [CHR 0x27] @ key @ [CHR 0x27] @ '')''))
      else Inr (lookup v key))"

section \<open>Dotted-path resolution\<close>

text \<open>\<^verbatim>\<open>path.split('.')\<close>: the pieces between the separators; never empty.\<close>

fun split_on :: "char \<Rightarrow> string \<Rightarrow> string list" where
  "split_on sep [] = [[]]"
| "split_on sep (c # cs) =
     (if c = sep then [] # split_on sep cs
      else (case split_on sep cs of
              w # ws \<Rightarrow> (c # w) # ws
            | [] \<Rightarrow> [[c]]))"


text \<open>
  The reducer of \<^verbatim>\<open>getNestedValue\<close>:
  \<^verbatim>\<open>current && current[key] !== undefined ? current[key] : null\<close>.
  The property is only read when \<^verbatim>\<open>current\<close> is truthy, hence neither
  \<^verbatim>\<open>null\<close> nor \<^verbatim>\<open>undefined\<close>.
\<close>

definition nested_step :: "jsval \<Rightarrow> string \<Rightarrow> jsval" where
  "nested_step current key =
     (if truthy current \<and> lookup current key \<noteq> JUndefined then lookup current key else JNull)"

definition getNestedValue :: "jsval \<Rightarrow> string \<Rightarrow> jsval" where
  "getNestedValue obj path = foldl nested_step obj (split_on CHR ''.'' path)"


section \<open>Column letters and numbers\<close>

text \<open>
  \<^verbatim>\<open>columnLetterToNumber\<close> walks the string from left to right and treats each
  character as a digit of a base-26 numeral whose digits start at 1 (for A):
  \<^verbatim>\<open>result = result * 26 + (letter.charCodeAt(i) - 'A'.charCodeAt(0) + 1)\<close>,
  a product and a sum of doubles.
\<close>

definition columnLetterToNumber :: "string \<Rightarrow> int" where
  "columnLetterToNumber letter =
     foldl (\<lambda>result c. dbl (dbl (result * 26) + (of_char c - of_char CHR ''A'' + 1))) 0 letter"

text \<open>The \<^verbatim>\<open>while (num > 0)\<close> loop of \<^verbatim>\<open>numberToColumnLetter\<close>, its two
  variables as arguments: \<^verbatim>\<open>num--\<close>, then the letter of \<^verbatim>\<open>num % 26\<close> in front
  of the result, then \<^verbatim>\<open>num = Math.floor(num / 26)\<close>.  That the loop ends is
  shown with the properties of the numbers, below.\<close>

function numberToColumnLetter_loop :: "int \<Rightarrow> string \<Rightarrow> string" where
  "numberToColumnLetter_loop num result =
     (if num > 0 then
        (let num1 = dbl (num - 1);
             result1 = char_of (of_char CHR ''A'' + num1 mod 26) # result
         in numberToColumnLetter_loop \<lfloor>toDouble (of_int num1 / 26)\<rfloor> result1)
      else result)"
  by pat_completeness auto

definition numberToColumnLetter :: "int \<Rightarrow> string" where
  "numberToColumnLetter num = numberToColumnLetter_loop num []"

section \<open>Cells, worksheets and workbooks\<close>

text \<open>
  The spreadsheet library is not part of the repository.  Its workbook is
  modelled as the ordered list of its worksheets; a worksheet as a grid of
  cells addressed by (row, column), the native tables registered on it, the
  column widths, the frozen rows and the protection password.  Getting a cell
  by its row and column numbers yields a blank cell where nothing was
  written; the grid has no bounds, where the library has 16384 columns.
\<close>

datatype cellval =
    Plain jsval
  | Formula string jsval

record font =
  font_color :: "string option"
  font_size :: "rat option"
  font_bold :: "bool option"
  font_italic :: "bool option"
  font_underline :: "bool option"

record cell =
  cell_value :: cellval
  cell_fill :: "string option"
  cell_font :: font
  cell_numFmt :: "string option"

record table_model =
  tbl_name :: string
  tbl_ref :: string
  tbl_headerRow :: bool
  tbl_theme :: string
  tbl_showRowStripes :: bool
  tbl_columns :: "string list"
  tbl_rows :: "jsval list list"

record worksheet =
  ws_name :: string
  ws_cells :: "int \<times> int \<Rightarrow> cell"
  ws_tables :: "table_model list"
  ws_widths :: "int \<Rightarrow> rat option"
  ws_frozen_ySplit :: "nat option"
  ws_protection :: "string option"

type_synonym workbook = "worksheet list"

type_synonym buffer = "nat list"

definition no_font :: font where
  "no_font = \<lparr>font_color = None, font_size = None, font_bold = None,
               font_italic = None, font_underline = None\<rparr>"

definition blank_cell :: cell where
  "blank_cell = \<lparr>cell_value = Plain JNull, cell_fill = None, cell_font = no_font,
                  cell_numFmt = None\<rparr>"

definition new_worksheet :: "string \<Rightarrow> worksheet" where
  "new_worksheet name =
     \<lparr>ws_name = name, ws_cells = (\<lambda>rc. blank_cell), ws_tables = [],
      ws_widths = (\<lambda>col. None), ws_frozen_ySplit = None, ws_protection = None\<rparr>"

definition getWorksheet :: "workbook \<Rightarrow> string \<Rightarrow> worksheet option" where
  "getWorksheet workbook name = find (\<lambda>ws. ws_name ws = name) workbook"

text \<open>
  \<^verbatim>\<open>workbook.addWorksheet(name)\<close> puts a new worksheet behind the others.  The
  library (ExcelJS 4) throws instead when it does not take the name: an
  empty one, \<^verbatim>\<open>History\<close>, one with a backslash or any of \<^verbatim>\<open>* ? : / [ ]\<close>, one that starts or
  ends with a single quotation mark, one that a worksheet of the workbook
  already has up to the case of its letters; and it cuts a longer name to 31
  characters.  Here the worksheet is added whatever the name, and
  \<^verbatim>\<open>sheetNameAccepted\<close> tells the names that the library takes as they are:
  what is stated below about a worksheet that has to be added is stated for
  such a name.
\<close>

definition addWorksheet :: "workbook \<Rightarrow> string \<Rightarrow> workbook" where
  "addWorksheet workbook name = workbook @ [new_worksheet name]"


text \<open>The source mutates the worksheet object it holds; here the changed
  worksheet is put back in the place of the one with its name.\<close>

fun putWorksheet :: "worksheet \<Rightarrow> workbook \<Rightarrow> workbook" where
  "putWorksheet ws [] = []"
| "putWorksheet ws (x # xs) =
     (if ws_name x = ws_name ws then ws # xs else x # putWorksheet ws xs)"

text \<open>\<^verbatim>\<open>getWorksheet\<close> followed by \<^verbatim>\<open>addWorksheet\<close> when there is none.\<close>

definition ensureWorksheet :: "workbook \<Rightarrow> string \<Rightarrow> workbook \<times> worksheet" where
  "ensureWorksheet workbook name =
     (case getWorksheet workbook name of
        Some ws \<Rightarrow> (workbook, ws)
      | None \<Rightarrow> (addWorksheet workbook name, new_worksheet name))"

text \<open>A change made to the cell object that \<^verbatim>\<open>getCell\<close> returns.\<close>

definition modifyCell :: "worksheet \<Rightarrow> int \<times> int \<Rightarrow> (cell \<Rightarrow> cell) \<Rightarrow> worksheet" where
  "modifyCell ws rc f = ws\<lparr>ws_cells := (ws_cells ws)(rc := f (ws_cells ws rc))\<rparr>"

text \<open>
  Three operations of the library are parameters, each with the exceptions
  it may throw: loading a workbook from a buffer, writing one to a buffer,
  and finding the cell that an address string names.  Adding a worksheet and
  adding a table are modelled where the builders use them.
\<close>

record excel_lib =
  xlsx_load :: "buffer \<Rightarrow> js_thrown + workbook"
  xlsx_writeBuffer :: "workbook \<Rightarrow> js_thrown + buffer"
  decodeAddress :: "string \<Rightarrow> js_thrown + (int \<times> int)"

subsection \<open>Sequencing computations that may throw\<close>

definition thenDo :: "js_thrown + 'a \<Rightarrow> ('a \<Rightarrow> js_thrown + 'b) \<Rightarrow> js_thrown + 'b" where
  "thenDo m f = (case m of Inl e \<Rightarrow> Inl e | Inr x \<Rightarrow> f x)"

definition tryCatch :: "js_thrown + 'a \<Rightarrow> (js_thrown \<Rightarrow> js_thrown + 'a) \<Rightarrow> js_thrown + 'a" where
  "tryCatch body handler = (case body of Inl e \<Rightarrow> handler e | Inr x \<Rightarrow> Inr x)"

text \<open>A \<^verbatim>\<open>for \<dots> of\<close> loop whose body may throw.\<close>

fun forEachThrow :: "('s \<Rightarrow> 'a \<Rightarrow> js_thrown + 's) \<Rightarrow> 'a list \<Rightarrow> 's \<Rightarrow> js_thrown + 's" where
  "forEachThrow body [] s = Inr s"
| "forEachThrow body (x # xs) s =
     (case body s x of Inl e \<Rightarrow> Inl e | Inr s' \<Rightarrow> forEachThrow body xs s')"

text \<open>\<^verbatim>\<open>Array.prototype.map\<close> with a callback that may throw.\<close>

fun mapThrow :: "('a \<Rightarrow> js_thrown + 'b) \<Rightarrow> 'a list \<Rightarrow> js_thrown + 'b list" where
  "mapThrow f [] = Inr []"
| "mapThrow f (x # xs) =
     (case f x of
        Inl e \<Rightarrow> Inl e
      | Inr y \<Rightarrow> (case mapThrow f xs of Inl e \<Rightarrow> Inl e | Inr ys \<Rightarrow> Inr (y # ys)))"

section \<open>The mapping engine\<close>

record mapping_style =
  bgColor :: "string option"
  fontColor :: "string option"
  fontSize :: "rat option"
  bold :: "bool option"
  italic :: "bool option"
  underline :: "bool option"

record mapping_config =
  m_sheet :: string
  m_cell :: string
  m_fieldName :: string
  m_style :: "mapping_style option"
  m_formula :: "string option"
  m_format :: "string option"

text \<open>An optional string in a condition: absent and empty are falsy.\<close>

definition str_truthy :: "string option \<Rightarrow> bool" where
  "str_truthy s = (case s of None \<Rightarrow> False | Some t \<Rightarrow> t \<noteq> [])"

definition argb :: "string \<Rightarrow> string" where
  "argb colour = ''FF'' @ colour"

text \<open>\<^verbatim>\<open>{ ...cell.font, ...fontOptions }\<close>\<close>

definition font_merge :: "font \<Rightarrow> font \<Rightarrow> font" where
  "font_merge old new =
     \<lparr>font_color = (case font_color new of None \<Rightarrow> font_color old | Some c \<Rightarrow> Some c),
      font_size = (case font_size new of None \<Rightarrow> font_size old | Some n \<Rightarrow> Some n),
      font_bold = (case font_bold new of None \<Rightarrow> font_bold old | Some b \<Rightarrow> Some b),
      font_italic = (case font_italic new of None \<Rightarrow> font_italic old | Some b \<Rightarrow> Some b),
      font_underline = (case font_underline new of None \<Rightarrow> font_underline old | Some b \<Rightarrow> Some b)\<rparr>"

definition applyCellStyle :: "cell \<Rightarrow> mapping_style option \<Rightarrow> cell" where
  "applyCellStyle c style =
     (case style of
        None \<Rightarrow> c
      | Some st \<Rightarrow>
          (let c1 = (case bgColor st of
                       None \<Rightarrow> c
                     | Some colour \<Rightarrow> if colour \<noteq> [] then c\<lparr>cell_fill := Some (argb colour)\<rparr> else c);
               fontOptions =
                 \<lparr>font_color = (case fontColor st of
                                  None \<Rightarrow> None
                                | Some colour \<Rightarrow> if colour \<noteq> [] then Some (argb colour) else None),
                  font_size = (case fontSize st of
                                 None \<Rightarrow> None
                               | Some n \<Rightarrow> if n \<noteq> 0 then Some n else None),
                  font_bold = (if bold st = Some True then Some True else None),
                  font_italic = (if italic st = Some True then Some True else None),
                  font_underline = (if underline st = Some True then Some True else None)\<rparr>
           in if fontOptions \<noteq> no_font
              then c1\<lparr>cell_font := font_merge (cell_font c1) fontOptions\<rparr>
              else c1))"

definition applyCellFormat :: "cell \<Rightarrow> string option \<Rightarrow> cell" where
  "applyCellFormat c format =
     (case format of
        None \<Rightarrow> c
      | Some fmt \<Rightarrow>
          if fmt = [] then c
          else (let key = map to_lower fmt in
            if key = ''currency'' then c\<lparr>cell_numFmt := Some ''$#,##0.00''\<rparr>
            else if key = ''percentage'' then c\<lparr>cell_numFmt := Some ''0.00%''\<rparr>
            else if key = ''date'' then c\<lparr>cell_numFmt := Some ''mm/dd/yyyy''\<rparr>
            else if key = ''datetime'' then c\<lparr>cell_numFmt := Some ''mm/dd/yyyy hh:mm:ss''\<rparr>
            else if key = ''number'' then c\<lparr>cell_numFmt := Some ''#,##0.00''\<rparr>
            else if key = ''integer'' then c\<lparr>cell_numFmt := Some ''#,##0''\<rparr>
            else c\<lparr>cell_numFmt := Some fmt\<rparr>))"

text \<open>
  The value a mapping stores:
  \<^verbatim>\<open>if (mapping.formula) cell.value = { formula, result: value || 0 }\<close>
  \<^verbatim>\<open>else cell.value = value !== null ? value : ''\<close>.
\<close>

definition mappingCellValue :: "mapping_config \<Rightarrow> jsval \<Rightarrow> cellval" where
  "mappingCellValue mapping v =
     (case m_formula mapping of
        None \<Rightarrow> Plain (if v \<noteq> JNull then v else JStr [])
      | Some f \<Rightarrow>
          if f \<noteq> [] then Formula f (js_or v (JNum 0))
          else Plain (if v \<noteq> JNull then v else JStr []))"

text \<open>One turn of the loop over \<^verbatim>\<open>mappingConfig\<close>.\<close>

definition processMapping ::
  "excel_lib \<Rightarrow> jsval \<Rightarrow> workbook \<Rightarrow> mapping_config \<Rightarrow> js_thrown + workbook" where
  "processMapping L jsonData workbook mapping =
     (case ensureWorksheet workbook (m_sheet mapping) of
        (workbook1, worksheet) \<Rightarrow>
          (case decodeAddress L (m_cell mapping) of
             Inl e \<Rightarrow> Inl e
           | Inr rc \<Rightarrow>
               (let v = getNestedValue jsonData (m_fieldName mapping);
                    worksheet1 =
                      modifyCell worksheet rc
                        (\<lambda>c. applyCellFormat
                               (applyCellStyle (c\<lparr>cell_value := mappingCellValue mapping v\<rparr>)
                                  (m_style mapping))
                               (m_format mapping))
                in Inr (putWorksheet worksheet1 workbook1))))"



section \<open>The table builder\<close>

record table_style =
  headerBgColor :: "string option"
  headerFontColor :: "string option"
  rowBgColor :: "string option"
  alternateRowBgColor :: "string option"

record table_config =
  t_sheet :: string
  t_tableName :: string
  t_startCell :: string
  t_columns :: "string list"
  t_style :: "table_style option"

text \<open>\<^verbatim>\<open>tableConfig.style?.field\<close>\<close>

definition style_opt :: "table_config \<Rightarrow> (table_style \<Rightarrow> string option) \<Rightarrow> string option" where
  "style_opt tableConfig field =
     (case t_style tableConfig of None \<Rightarrow> None | Some st \<Rightarrow> field st)"

text \<open>The match of \<^verbatim>\<open>/^([A-Z]+)([0-9]+)$/\<close>: the two groups, when the string
  is one or more capitals followed by one or more digits and nothing else.\<close>

definition match_cell_ref :: "string \<Rightarrow> (string \<times> string) option" where
  "match_cell_ref s =
     (let letters = takeWhile is_upper s; digits = dropWhile is_upper s
      in if letters \<noteq> [] \<and> digits \<noteq> [] \<and> list_all is_digit digits
         then Some (letters, digits) else None)"

definition typeof :: "jsval \<Rightarrow> string" where
  "typeof v =
     (case v of
        JUndefined \<Rightarrow> ''undefined''
      | JNull \<Rightarrow> ''object''
      | JBool b \<Rightarrow> ''boolean''
      | JNum n \<Rightarrow> ''number''
      | JNaN \<Rightarrow> ''number''
      | JStr s \<Rightarrow> ''string''
      | JArr xs \<Rightarrow> ''object''
      | JObj kvs \<Rightarrow> ''object''
      | JBuiltin p \<Rightarrow> if builtin_name p = ''prototype'' then ''object'' else ''function'')"

text \<open>What the header loop does to the cell of one header.\<close>

definition headerCell :: "table_config \<Rightarrow> string \<Rightarrow> cell \<Rightarrow> cell" where
  "headerCell tableConfig header c =
     (let c1 = c\<lparr>cell_value := Plain (JStr header)\<rparr>;
          c2 = (case style_opt tableConfig headerBgColor of
                  None \<Rightarrow> c1
                | Some colour \<Rightarrow>
                    if colour \<noteq> [] then c1\<lparr>cell_fill := Some (argb colour)\<rparr> else c1)
      in case style_opt tableConfig headerFontColor of
           None \<Rightarrow> c2\<lparr>cell_font := no_font\<lparr>font_bold := Some True\<rparr>\<rparr>
         | Some colour \<Rightarrow>
             if colour \<noteq> []
             then c2\<lparr>cell_font := no_font\<lparr>font_color := Some (argb colour), font_bold := Some True\<rparr>\<rparr>
             else c2\<lparr>cell_font := no_font\<lparr>font_bold := Some True\<rparr>\<rparr>)"

fun writeHeaders ::
  "table_config \<Rightarrow> int \<Rightarrow> int \<Rightarrow> nat \<Rightarrow> string list \<Rightarrow> worksheet \<Rightarrow> worksheet" where
  "writeHeaders tableConfig startRow startCol index [] ws = ws"
| "writeHeaders tableConfig startRow startCol index (header # rest) ws =
     writeHeaders tableConfig startRow startCol (Suc index) rest
       (modifyCell ws (startRow, startCol + int index) (headerCell tableConfig header))"

text \<open>The alternating row colours, applied to one data cell.\<close>

definition rowFill :: "table_config \<Rightarrow> nat \<Rightarrow> cell \<Rightarrow> cell" where
  "rowFill tableConfig rowIndex c =
     (if str_truthy (style_opt tableConfig rowBgColor)
         \<or> str_truthy (style_opt tableConfig alternateRowBgColor)
      then
        (let bgColor =
               (if rowIndex mod 2 = 0 then style_opt tableConfig rowBgColor
                else if str_truthy (style_opt tableConfig alternateRowBgColor)
                     then style_opt tableConfig alternateRowBgColor
                     else style_opt tableConfig rowBgColor)
         in case bgColor of
              None \<Rightarrow> c
            | Some colour \<Rightarrow> if colour \<noteq> [] then c\<lparr>cell_fill := Some (argb colour)\<rparr> else c)
      else c)"

text \<open>A row that is an array: \<^verbatim>\<open>row.forEach((cellValue, colIndex) => \<dots>)\<close>.\<close>

fun writeArrayRow ::
  "table_config \<Rightarrow> int \<Rightarrow> int \<Rightarrow> nat \<Rightarrow> nat \<Rightarrow> jsval list \<Rightarrow> worksheet \<Rightarrow> worksheet" where
  "writeArrayRow tableConfig currentRow startCol rowIndex colIndex [] ws = ws"
| "writeArrayRow tableConfig currentRow startCol rowIndex colIndex (cellValue # rest) ws =
     writeArrayRow tableConfig currentRow startCol rowIndex (Suc colIndex) rest
       (if colIndex < length (t_columns tableConfig)
        then modifyCell ws (currentRow, startCol + int colIndex)
               (\<lambda>c. rowFill tableConfig rowIndex (c\<lparr>cell_value := Plain cellValue\<rparr>))
        else ws)"

text \<open>A row whose \<^verbatim>\<open>typeof\<close> is \<^verbatim>\<open>'object'\<close>:
  \<^verbatim>\<open>tableConfig.columns.forEach((column, colIndex) => \<dots> row[column] || '' \<dots>)\<close>.\<close>

fun writeObjectRow ::
  "table_config \<Rightarrow> int \<Rightarrow> int \<Rightarrow> nat \<Rightarrow> nat \<Rightarrow> jsval \<Rightarrow> string list \<Rightarrow> worksheet
     \<Rightarrow> js_thrown + worksheet" where
  "writeObjectRow tableConfig currentRow startCol rowIndex colIndex row [] ws = Inr ws"
| "writeObjectRow tableConfig currentRow startCol rowIndex colIndex row (column # rest) ws =
     (case getProp row column of
        Inl e \<Rightarrow> Inl e
      | Inr v \<Rightarrow>
          writeObjectRow tableConfig currentRow startCol rowIndex (Suc colIndex) row rest
            (modifyCell ws (currentRow, startCol + int colIndex)
               (\<lambda>c. rowFill tableConfig rowIndex (c\<lparr>cell_value := Plain (js_or v (JStr []))\<rparr>))))"

text \<open>The body of \<^verbatim>\<open>tableData.forEach((row, rowIndex) => \<dots>)\<close>.\<close>

definition writeDataRow ::
  "table_config \<Rightarrow> int \<Rightarrow> int \<Rightarrow> nat \<Rightarrow> jsval \<Rightarrow> worksheet \<Rightarrow> js_thrown + worksheet" where
  "writeDataRow tableConfig startRow startCol rowIndex row ws =
     (let currentRow = startRow + int rowIndex + 1
      in case row of
           JArr vs \<Rightarrow> Inr (writeArrayRow tableConfig currentRow startCol rowIndex 0 vs ws)
         | _ \<Rightarrow>
             if typeof row = ''object''
             then writeObjectRow tableConfig currentRow startCol rowIndex 0 row
                    (t_columns tableConfig) ws
             else Inr ws)"

fun writeDataRows ::
  "table_config \<Rightarrow> int \<Rightarrow> int \<Rightarrow> nat \<Rightarrow> jsval list \<Rightarrow> worksheet \<Rightarrow> js_thrown + worksheet" where
  "writeDataRows tableConfig startRow startCol rowIndex [] ws = Inr ws"
| "writeDataRows tableConfig startRow startCol rowIndex (row # rest) ws =
     (case writeDataRow tableConfig startRow startCol rowIndex row ws of
        Inl e \<Rightarrow> Inl e
      | Inr ws1 \<Rightarrow> writeDataRows tableConfig startRow startCol (Suc rowIndex) rest ws1)"

text \<open>One element of the \<^verbatim>\<open>rows\<close> handed to \<^verbatim>\<open>addTable\<close>:
  \<^verbatim>\<open>Array.isArray(row) ? row : tableConfig.columns.map(col => row[col] || '')\<close>.\<close>

definition tableRow :: "table_config \<Rightarrow> jsval \<Rightarrow> js_thrown + jsval list" where
  "tableRow tableConfig row =
     (case row of
        JArr vs \<Rightarrow> Inr vs
      | _ \<Rightarrow>
          mapThrow (\<lambda>col. thenDo (getProp row col) (\<lambda>v. Inr (js_or v (JStr []))))
            (t_columns tableConfig))"

text \<open>
  \<^verbatim>\<open>worksheet.addTable(model)\<close>, as the library (ExcelJS 4) does it: it checks
  the model, stores the header and the rows of the model in the cells of the
  range, and records the table under its name, in the place of a table that
  had that name.

  The top-left cell of the range is read from \<^verbatim>\<open>ref\<close>: its capitals and
  digits, up to the colon.
\<close>

definition refTopLeft :: "string \<Rightarrow> (int \<times> int) option" where
  "refTopLeft ref =
     (case match_cell_ref (takeWhile (\<lambda>c. c \<noteq> CHR '':'') ref) of
        None \<Rightarrow> None
      | Some (letters, digits) \<Rightarrow> Some (parseInt digits, columnLetterToNumber letters))"

text \<open>The header row of the table: the names of the columns.\<close>

fun storeHeader :: "int \<Rightarrow> int \<Rightarrow> nat \<Rightarrow> string list \<Rightarrow> worksheet \<Rightarrow> worksheet" where
  "storeHeader row col j [] ws = ws"
| "storeHeader row col j (name # rest) ws =
     storeHeader row col (Suc j) rest
       (modifyCell ws (row, col + int j) (\<lambda>c. c\<lparr>cell_value := Plain (JStr name)\<rparr>))"

text \<open>
  One row of the table:
  \<^verbatim>\<open>data.forEach((value, j) => { \<dots> cell.value = value; assignStyle(cell, table.columns[j].style) })\<close>.
  Behind the last column there is no \<^verbatim>\<open>table.columns[j]\<close> to read the style
  of.
\<close>

fun storeRow ::
  "nat \<Rightarrow> int \<Rightarrow> int \<Rightarrow> nat \<Rightarrow> jsval list \<Rightarrow> worksheet \<Rightarrow> js_thrown + worksheet" where
  "storeRow width row col j [] ws = Inr ws"
| "storeRow width row col j (v # rest) ws =
     (if j < width
      then storeRow width row col (Suc j) rest
             (modifyCell ws (row, col + int j) (\<lambda>c. c\<lparr>cell_value := Plain v\<rparr>))
      else Inl (JsTypeError (''Cannot read properties of undefined (reading ''
                             @ [CHR 0x27] @ ''style'' @ [CHR 0x27] @ '')'')))"

fun storeRows ::
  "nat \<Rightarrow> int \<Rightarrow> int \<Rightarrow> jsval list list \<Rightarrow> worksheet \<Rightarrow> js_thrown + worksheet" where
  "storeRows width row col [] ws = Inr ws"
| "storeRows width row col (data # rest) ws =
     (case storeRow width row col 0 data ws of
        Inl e \<Rightarrow> Inl e
      | Inr ws1 \<Rightarrow> storeRows width (row + 1) col rest ws1)"

text \<open>\<^verbatim>\<open>this.tables[model.name] = table\<close>\<close>

definition registerTable :: "table_model \<Rightarrow> table_model list \<Rightarrow> table_model list" where
  "registerTable model tables =
     (if list_ex (\<lambda>t. tbl_name t = tbl_name model) tables
      then map (\<lambda>t. if tbl_name t = tbl_name model then model else t) tables
      else tables @ [model])"

text \<open>The index of the first column without a name, if there is one.\<close>

definition unnamedColumn :: "string list \<Rightarrow> nat option" where
  "unnamedColumn names = find (\<lambda>i. names ! i = []) [0 ..< length names]"

definition addTable :: "worksheet \<Rightarrow> table_model \<Rightarrow> js_thrown + worksheet" where
  "addTable ws model =
     (if tbl_ref model = [] then Inl (JsError ''Table must have ref'')
      else
        case refTopLeft (tbl_ref model) of
          None \<Rightarrow> Inl (JsError ''Table must be on valid row'')
        | Some (row, col) \<Rightarrow>
            (let width = length (tbl_columns model);
                 lastCol = col + int width - 1
             in if 16384 < col then
                  Inl (JsError (''Out of bounds. Invalid column letter: ''
                                @ takeWhile is_upper (tbl_ref model)))
                else if row \<le> 0 then Inl (JsError ''Table must be on valid row'')
                else if col \<le> 0 then Inl (JsError ''Table must be on valid col'')
                else if lastCol < 1 \<or> 16384 < lastCol then
                  Inl (JsError (show_int lastCol
                                @ '' is out of bounds. Excel supports columns from 1 to 16384''))
                else
                  case unnamedColumn (tbl_columns model) of
                    Some i \<Rightarrow> Inl (JsError (''Column '' @ show_nat i @ '' must have a name''))
                  | None \<Rightarrow>
                      thenDo
                        (storeRows width (if tbl_headerRow model then row + 1 else row) col
                           (tbl_rows model)
                           (if tbl_headerRow model
                            then storeHeader row col 0 (tbl_columns model) ws
                            else ws))
                        (\<lambda>ws1. Inr (ws1\<lparr>ws_tables := registerTable model (ws_tables ws1)\<rparr>))))"

text \<open>The range of the table:
  \<^verbatim>\<open>`${tableConfig.startCell}:${endCol}${endRow}`\<close>.\<close>

definition tableRef :: "table_config \<Rightarrow> int \<Rightarrow> int \<Rightarrow> nat \<Rightarrow> string" where
  "tableRef tableConfig startCol startRow dataLength =
     (let endCol = numberToColumnLetter (startCol + int (length (t_columns tableConfig)) - 1);
          endRow = startRow + int dataLength
      in t_startCell tableConfig @ '':'' @ endCol @ show_int endRow)"

text \<open>
  \<^verbatim>\<open>createTable\<close>.  The table data is whatever the document holds under
  \<^verbatim>\<open>tableData\<close>; a truthy value that is not an array has no \<^verbatim>\<open>forEach\<close>.

  The cells are a grid without bounds and the sums of a row or column
  number and an index are exact.  In the library \<^verbatim>\<open>worksheet.getCell(row, col)\<close>
  throws for a column beyond 16384 (XFD), and the sums are exact below
  2^53; what is stated below about a table that gets built is stated for a
  range within the sheet, rows 1 to 1048576 and columns 1 to 16384.
\<close>

definition createTable :: "worksheet \<Rightarrow> table_config \<Rightarrow> jsval \<Rightarrow> js_thrown + worksheet" where
  "createTable worksheet tableConfig tableData =
     (if \<not> truthy tableData \<or> lookup tableData ''length'' = JNum 0 then Inr worksheet
      else
        case match_cell_ref (t_startCell tableConfig) of
          None \<Rightarrow> Inl (JsError (''Invalid start cell: '' @ t_startCell tableConfig))
        | Some (letters, digits) \<Rightarrow>
            (let startCol = columnLetterToNumber letters;
                 startRow = parseInt digits;
                 ws1 = writeHeaders tableConfig startRow startCol 0 (t_columns tableConfig) worksheet
             in case tableData of
                  JArr rows \<Rightarrow>
                    thenDo (writeDataRows tableConfig startRow startCol 0 rows ws1) (\<lambda>ws2.
                    thenDo (mapThrow (tableRow tableConfig) rows) (\<lambda>trows.
                      addTable ws2
                        \<lparr>tbl_name = t_tableName tableConfig,
                         tbl_ref = tableRef tableConfig startCol startRow (length rows),
                         tbl_headerRow = True,
                         tbl_theme = ''TableStyleMedium9'',
                         tbl_showRowStripes = True,
                         tbl_columns = t_columns tableConfig,
                         tbl_rows = trows\<rparr>))
                | _ \<Rightarrow> Inl (JsTypeError ''tableData.forEach is not a function'')))"

text \<open>The value found in a cell, and the tables found on the worksheet, after
  \<^verbatim>\<open>createTable\<close> has returned.\<close>

definition cellAfterTable ::
  "worksheet \<Rightarrow> table_config \<Rightarrow> jsval \<Rightarrow> int \<times> int \<Rightarrow> cellval option" where
  "cellAfterTable worksheet tableConfig tableData rc =
     (case createTable worksheet tableConfig tableData of
        Inl e \<Rightarrow> None
      | Inr ws \<Rightarrow> Some (cell_value (ws_cells ws rc)))"

definition tablesAfter ::
  "worksheet \<Rightarrow> table_config \<Rightarrow> jsval \<Rightarrow> table_model list option" where
  "tablesAfter worksheet tableConfig tableData =
     (case createTable worksheet tableConfig tableData of
        Inl e \<Rightarrow> None
      | Inr ws \<Rightarrow> Some (ws_tables ws))"

text \<open>A row that the table can hold: a value list with no more values than
  there are columns, or a keyed object.\<close>

definition rowFits :: "table_config \<Rightarrow> jsval \<Rightarrow> bool" where
  "rowFits tableConfig row =
     (case row of
        JArr vs \<Rightarrow> length vs \<le> length (t_columns tableConfig)
      | JObj kvs \<Rightarrow> True
      | _ \<Rightarrow> False)"

text \<open>
  The table of the specification, for a start cell made of these letters and
  digits: a range from the start cell to the end cell at column
  startCol + columns.length - 1 and row startRow + dataRows.length, the
  header row enabled, the default theme with striped rows, the columns and
  one row for each data row.
\<close>

definition spec_table :: "table_config \<Rightarrow> string \<Rightarrow> string \<Rightarrow> jsval list \<Rightarrow> table_model" where
  "spec_table tableConfig letters digits rows =
     \<lparr>tbl_name = t_tableName tableConfig,
      tbl_ref = t_startCell tableConfig @ '':''
                @ numberToColumnLetter
                    (columnLetterToNumber letters + int (length (t_columns tableConfig)) - 1)
                @ show_int (parseInt digits + int (length rows)),
      tbl_headerRow = True,
      tbl_theme = ''TableStyleMedium9'',
      tbl_showRowStripes = True,
      tbl_columns = t_columns tableConfig,
      tbl_rows = map (\<lambda>row. case row of
                              JArr vs \<Rightarrow> vs
                            | _ \<Rightarrow> map (\<lambda>col. js_or (lookup row col) (JStr []))
                                     (t_columns tableConfig)) rows\<rparr>"

section \<open>The workbook assembler\<close>

record excel_options =
  includeHeaders :: "bool option"
  autoFitColumns :: "bool option"
  freezeFirstRow :: "bool option"
  protectSheet :: "bool option"
  password :: "string option"

definition autoFit :: "worksheet \<Rightarrow> worksheet" where
  "autoFit ws =
     ws\<lparr>ws_widths := (\<lambda>colNumber. if 1 \<le> colNumber \<and> colNumber \<le> 10 then Some 15
                                    else ws_widths ws colNumber)\<rparr>"

text \<open>The callback of \<^verbatim>\<open>workbook.eachSheet\<close>.\<close>

definition applyOptions :: "excel_options \<Rightarrow> worksheet \<Rightarrow> worksheet" where
  "applyOptions options ws =
     (let ws1 = (if autoFitColumns options \<noteq> Some False then autoFit ws else ws);
          ws2 = (if freezeFirstRow options = Some True
                 then ws1\<lparr>ws_frozen_ySplit := Some 1\<rparr> else ws1)
      in if protectSheet options = Some True
         then ws2\<lparr>ws_protection :=
                    Some (case password options of
                            None \<Rightarrow> []
                          | Some p \<Rightarrow> p)\<rparr>
         else ws2)"

definition loadOrCreate :: "excel_lib \<Rightarrow> buffer option \<Rightarrow> js_thrown + workbook" where
  "loadOrCreate L templateBuffer =
     (case templateBuffer of
        Some b \<Rightarrow> xlsx_load L b
      | None \<Rightarrow> Inr (addWorksheet [] ''Sheet1''))"

text \<open>One turn of the loop over \<^verbatim>\<open>tableConfigs\<close>.\<close>

definition processTable :: "jsval \<Rightarrow> workbook \<Rightarrow> table_config \<Rightarrow> js_thrown + workbook" where
  "processTable jsonData workbook tableConfig =
     (case ensureWorksheet workbook (t_sheet tableConfig) of
        (workbook1, worksheet) \<Rightarrow>
          thenDo (if truthy (getNestedValue jsonData ''tableData'')
                  then Inr (getNestedValue jsonData ''tableData'')
                  else getProp jsonData ''tableData'') (\<lambda>tableData.
            if truthy tableData
            then thenDo (createTable worksheet tableConfig tableData) (\<lambda>worksheet1.
                   Inr (putWorksheet worksheet1 workbook1))
            else Inr workbook1))"

text \<open>The \<^verbatim>\<open>try\<close> block of \<^verbatim>\<open>generateWorkbook\<close>.\<close>

definition generateWorkbook_try ::
  "excel_lib \<Rightarrow> jsval \<Rightarrow> mapping_config list \<Rightarrow> table_config list \<Rightarrow> buffer option
     \<Rightarrow> excel_options \<Rightarrow> js_thrown + buffer" where
  "generateWorkbook_try L jsonData mappingConfig tableConfigs templateBuffer options =
     thenDo (loadOrCreate L templateBuffer) (\<lambda>workbook0.
     thenDo (forEachThrow (processMapping L jsonData) mappingConfig workbook0) (\<lambda>workbook1.
     thenDo (forEachThrow (processTable jsonData) tableConfigs workbook1) (\<lambda>workbook2.
     xlsx_writeBuffer L (map (applyOptions options) workbook2))))"

text \<open>\<^verbatim>\<open>error instanceof Error ? error.message : fallback\<close>\<close>

definition messageOr :: "js_thrown \<Rightarrow> string \<Rightarrow> string" where
  "messageOr error fallback = (if instanceof_Error error then message error else fallback)"

definition generateWorkbook ::
  "excel_lib \<Rightarrow> jsval \<Rightarrow> mapping_config list \<Rightarrow> table_config list \<Rightarrow> buffer option
     \<Rightarrow> excel_options \<Rightarrow> js_thrown + buffer" where
  "generateWorkbook L jsonData mappingConfig tableConfigs templateBuffer options =
     tryCatch (generateWorkbook_try L jsonData mappingConfig tableConfigs templateBuffer options)
       (\<lambda>error. Inl (JsError (''Failed to generate Excel workbook: ''
                                 @ messageOr error ''Unknown error'')))"

section \<open>The template inspector\<close>

record validation =
  isValid :: bool
  sheets :: "string list"
  error :: "string option"


section \<open>Bulk generation\<close>

record bulk_request =
  b_jsonData :: jsval
  b_mappingConfig :: "mapping_config list option"
  b_tables :: "table_config list option"
  b_options :: "excel_options option"
  b_fileName :: "string option"

record bulk_result =
  r_index :: nat
  r_success :: bool
  r_fileName :: string
  r_fileSize :: string
  r_data :: buffer

record bulk_error =
  e_index :: nat
  e_error :: string

record bulk_summary =
  total :: nat
  successful :: nat
  failed :: nat

datatype bulk_response =
    Status400 string string
  | Json200 bool string "bulk_result list" "bulk_error list" bulk_summary

definition no_options :: excel_options where
  "no_options = \<lparr>includeHeaders = None, autoFitColumns = None, freezeFirstRow = None,
                  protectSheet = None, password = None\<rparr>"

text \<open>\<^verbatim>\<open>`${Math.round(length / 1024)} KB`\<close>\<close>

definition fileSizeKB :: "nat \<Rightarrow> string" where
  "fileSizeKB len = show_nat ((len + 512) div 1024) @ '' KB''"

text \<open>
  The call of \<^verbatim>\<open>generateWorkbook\<close> for one request of the batch: no
  template, \<^verbatim>\<open>request.tables || []\<close> and \<^verbatim>\<open>request.options || {}\<close>.  The
  requests of a batch are not validated: one that has no \<^verbatim>\<open>mappingConfig\<close>
  makes the loop over the mappings throw (the message is V8's), inside the
  \<^verbatim>\<open>try\<close> block and before anything else can fail.
\<close>

definition bulkItem :: "excel_lib \<Rightarrow> bulk_request \<Rightarrow> js_thrown + buffer" where
  "bulkItem L request =
     (case b_mappingConfig request of
        None \<Rightarrow>
          Inl (JsError (''Failed to generate Excel workbook: ''
                          @ messageOr (JsTypeError ''mappingConfig is not iterable'')
                              ''Unknown error''))
      | Some mappingConfig \<Rightarrow>
          generateWorkbook L (b_jsonData request) mappingConfig
            (case b_tables request of None \<Rightarrow> [] | Some ts \<Rightarrow> ts)
            None
            (case b_options request of None \<Rightarrow> no_options | Some os \<Rightarrow> os))"

text \<open>What is pushed on \<^verbatim>\<open>results\<close> and on \<^verbatim>\<open>errors\<close>.  The buffer is kept as
  the \<^verbatim>\<open>data\<close> of a result; its base-64 text is not spelled out.\<close>

definition resultEntry :: "nat \<Rightarrow> bulk_request \<Rightarrow> buffer \<Rightarrow> bulk_result" where
  "resultEntry i request workbookBuffer =
     \<lparr>r_index = i, r_success = True,
      r_fileName = (case b_fileName request of
                      None \<Rightarrow> ''generated_'' @ show_nat (i + 1) @ ''.xlsx''
                    | Some n \<Rightarrow> if n \<noteq> [] then n
                               else ''generated_'' @ show_nat (i + 1) @ ''.xlsx''),
      r_fileSize = fileSizeKB (length workbookBuffer),
      r_data = workbookBuffer\<rparr>"

definition errorEntry :: "nat \<Rightarrow> js_thrown \<Rightarrow> bulk_error" where
  "errorEntry i err = \<lparr>e_index = i, e_error = messageOr err ''Unknown error''\<rparr>"

text \<open>The \<^verbatim>\<open>for\<close> loop of \<^verbatim>\<open>bulkGenerate\<close>, with the index and the two arrays it
  fills as arguments.\<close>

fun bulkLoop ::
  "excel_lib \<Rightarrow> nat \<Rightarrow> bulk_request list \<Rightarrow> bulk_result list \<Rightarrow> bulk_error list
     \<Rightarrow> bulk_result list \<times> bulk_error list" where
  "bulkLoop L i [] results errors = (results, errors)"
| "bulkLoop L i (request # rest) results errors =
     (case bulkItem L request of
        Inr workbookBuffer \<Rightarrow>
          bulkLoop L (Suc i) rest (results @ [resultEntry i request workbookBuffer]) errors
      | Inl err \<Rightarrow>
          bulkLoop L (Suc i) rest results (errors @ [errorEntry i err]))"

definition bulkGenerate :: "excel_lib \<Rightarrow> bulk_request list \<Rightarrow> bulk_response" where
  "bulkGenerate L requests =
     (if requests = [] then
        Status400 ''Invalid bulk request'' ''Please provide an array of generation requests''
      else
        case bulkLoop L 0 requests [] [] of
          (results, errors) \<Rightarrow>
            Json200 True
              (''Bulk generation completed. '' @ show_nat (length results) @ '' successful, ''
                 @ show_nat (length errors) @ '' failed.'')
              results errors
              \<lparr>total = length requests, successful = length results, failed = length errors\<rparr>)"

text \<open>The two arrays of a response.\<close>

fun resultsOf :: "bulk_response \<Rightarrow> bulk_result list" where
  "resultsOf (Json200 ok msg results errors summary) = results"
| "resultsOf (Status400 err msg) = []"

fun errorsOf :: "bulk_response \<Rightarrow> bulk_error list" where
  "errorsOf (Json200 ok msg results errors summary) = errors"
| "errorsOf (Status400 err msg) = []"

section \<open>A small instance of the library\<close>

text \<open>
  To run the definitions on concrete inputs: an address is resolved by the
  pattern and the base-26 reading above, a buffer whose first byte is not
  80 is rejected by the loader, and the written buffer lists the lengths of
  the sheet names after that byte.
\<close>

definition simple_decodeAddress :: "string \<Rightarrow> js_thrown + (int \<times> int)" where
  "simple_decodeAddress s =
     (case match_cell_ref s of
        None \<Rightarrow> Inl (JsError (''Invalid Address: '' @ s))
      | Some (letters, digits) \<Rightarrow> Inr (parseInt digits, columnLetterToNumber letters))"

definition simple_lib :: excel_lib where
  "simple_lib =
     \<lparr>xlsx_load = (\<lambda>b. case b of
                         [] \<Rightarrow> Inl (JsError ''End of data reached'')
                       | x # xs \<Rightarrow>
                           if x = 80 then Inr (map (\<lambda>n. new_worksheet (replicate n CHR ''S'')) xs)
                           else Inl (JsError ''Corrupted zip'')),
      xlsx_writeBuffer = (\<lambda>wb. Inr (80 # map (\<lambda>ws. length (ws_name ws)) wb)),
      decodeAddress = simple_decodeAddress\<rparr>"


section \<open>Properties of the numbers\<close>

lemma round_half_even_of_int [simp]: "round_half_even (of_int k) = k"
  by (simp add: round_half_even_def)

lemma round_half_even_upper: "of_int (round_half_even y) \<le> y + 1 / 2"
  unfolding round_half_even_def Let_def by (auto; linarith)

lemma round_half_even_lower: "y - 1 / 2 \<le> of_int (round_half_even y)"
  unfolding round_half_even_def Let_def by (auto; linarith)

lemma of_int_bitlen_bounds:
  assumes "0 < p"
  shows "(2::rat) powi (bitlen p - 1) \<le> of_int p" and "of_int p < (2::rat) powi bitlen p"
proof -
  have b: "1 \<le> bitlen p" using assms by (simp add: bitlen_alt_def)
  have 1: "2 ^ nat (bitlen p - 1) \<le> p" and 2: "p < 2 ^ nat (bitlen p)"
    using bitlen_bounds [OF assms] by simp_all
  have "(2::rat) powi (bitlen p - 1) = of_int (2 ^ nat (bitlen p - 1))"
    using b by (simp add: power_int_def)
  also have "\<dots> \<le> of_int p" using 1 by (simp only: of_int_le_iff)
  finally show "(2::rat) powi (bitlen p - 1) \<le> of_int p" .
  have "(of_int p :: rat) < of_int (2 ^ nat (bitlen p))" using 2 by (simp only: of_int_less_iff)
  also have "\<dots> = (2::rat) powi bitlen p"
    using b by (simp add: power_int_def)
  finally show "of_int p < (2::rat) powi bitlen p" .
qed

lemma exponent_bounds:
  assumes "0 < x"
  shows "2 powi (exponent x) \<le> x" and "x < 2 powi (exponent x + 1)"
proof -
  obtain p q where pq: "quotient_of x = (p, q)" by (cases "quotient_of x")
  have q: "0 < q" using pq by (rule quotient_of_denom_pos)
  have x: "x = of_int p / of_int q" using pq by (rule quotient_of_div)
  have p: "0 < p" using assms q x by (simp add: zero_less_divide_iff)
  define d where "d = bitlen p - bitlen q"
  have lo: "(2::rat) powi (d - 1) < x"
  proof -
    have "(2::rat) powi (d - 1) = 2 powi (bitlen p - 1) / 2 powi bitlen q"
      by (simp add: d_def power_int_diff [symmetric] algebra_simps)
    also have "\<dots> < of_int p / of_int q"
      using of_int_bitlen_bounds [OF p] of_int_bitlen_bounds [OF q] q
      by (intro frac_less2) simp_all
    finally show ?thesis using x by simp
  qed
  have hi: "x < (2::rat) powi (d + 1)"
  proof -
    have "of_int p / of_int q < (2::rat) powi bitlen p / 2 powi (bitlen q - 1)"
      using of_int_bitlen_bounds [OF p] of_int_bitlen_bounds [OF q] p
      by (intro frac_less) simp_all
    also have "\<dots> = (2::rat) powi (d + 1)"
      by (simp add: d_def power_int_diff [symmetric] algebra_simps)
    finally show ?thesis using x by simp
  qed
  have e: "exponent x = (if 2 powi d \<le> x then d else d - 1)"
    by (simp add: exponent_def pq d_def Let_def)
  show "2 powi (exponent x) \<le> x"
    using lo by (simp add: e)
  show "x < 2 powi (exponent x + 1)"
    using hi by (auto simp add: e)
qed

lemma exponent_less:
  assumes "0 < x" and "x < 2 powi n"
  shows "exponent x < n"
proof (rule ccontr)
  assume "\<not> exponent x < n"
  then have "(2::rat) powi n \<le> 2 powi exponent x"
    by (intro power_int_increasing) simp_all
  then show False using exponent_bounds(1) [OF assms(1)] assms(2) by simp
qed

lemma exponent_ge:
  assumes "0 < x" and "2 powi n \<le> x"
  shows "n \<le> exponent x"
proof (rule ccontr)
  assume "\<not> n \<le> exponent x"
  then have "(2::rat) powi (exponent x + 1) \<le> 2 powi n"
    by (intro power_int_increasing) simp_all
  then show False using exponent_bounds(2) [OF assms(1)] assms(2) by simp
qed

lemma toDouble_of_int:
  assumes "\<bar>n\<bar> < 2 ^ 53"
  shows "toDouble (of_int n) = of_int n"
proof (cases "n = 0")
  case True
  then show ?thesis by (simp add: toDouble_def)
next
  case False
  define x :: rat where "x = \<bar>of_int n\<bar>"
  have xn: "x = of_int \<bar>n\<bar>" by (simp add: x_def)
  have x: "0 < x" using False by (simp add: x_def)
  have "x < of_int (2 ^ 53)" unfolding xn using assms by (simp only: of_int_less_iff)
  then have "x < 2 powi 53" by simp
  then have e: "exponent x < 53" using x by (rule exponent_less [rotated])
  define k where "k = nat (52 - exponent x)"
  have u: "(2::rat) powi (exponent x - 52) = 1 / 2 ^ k"
    using e by (simp add: power_int_def k_def field_simps)
  have "x / (1 / 2 ^ k) = of_int (\<bar>n\<bar> * 2 ^ k)" by (simp add: xn)
  then have r: "round_half_even (x / (1 / 2 ^ k)) = \<bar>n\<bar> * 2 ^ k"
    by (simp only: round_half_even_of_int)
  have "toDouble (of_int n)
      = sgn (of_int n) * of_int (round_half_even (x / 2 powi (exponent x - 52)))
        * 2 powi (exponent x - 52)"
    using False by (simp add: toDouble_def Let_def x_def)
  also have "\<dots> = sgn (of_int n) * of_int (\<bar>n\<bar> * 2 ^ k) * (1 / 2 ^ k)"
    by (simp only: u r)
  also have "\<dots> = sgn (of_int n) * x" by (simp add: xn)
  also have "\<dots> = of_int n" unfolding x_def by (simp add: sgn_mult_abs)
  finally show ?thesis .
qed

text \<open>The double nearest to an integer is an integer: \<^verbatim>\<open>dbl\<close> loses nothing.\<close>

lemma dbl_is_toDouble: "of_int (dbl n) = toDouble (of_int n)"
proof (cases "\<bar>n\<bar> < 2 ^ 53")
  case True
  then show ?thesis by (simp add: dbl_def toDouble_of_int)
next
  case False
  define x :: rat where "x = \<bar>of_int n\<bar>"
  have n0: "n \<noteq> 0" using False by auto
  have "2 ^ 53 \<le> \<bar>n\<bar>" using False by simp
  then have "(of_int (2 ^ 53) :: rat) \<le> of_int \<bar>n\<bar>" by (simp only: of_int_le_iff)
  then have x53: "2 powi 53 \<le> x" by (simp add: x_def)
  moreover have "(0::rat) < 2 powi 53" by simp
  ultimately have x: "0 < x" by linarith
  have e: "53 \<le> exponent x" using x x53 by (rule exponent_ge)
  define k where "k = nat (exponent x - 52)"
  have u: "(2::rat) powi (exponent x - 52) = of_int (2 ^ k)"
    using e by (simp add: power_int_def k_def)
  define r where "r = round_half_even (x / of_int (2 ^ k))"
  have "toDouble (of_int n) = sgn (of_int n) * of_int r * of_int (2 ^ k)"
    using n0 unfolding toDouble_def Let_def x_def [symmetric] u r_def by simp
  also have "\<dots> = of_int (sgn n * r * 2 ^ k)" by (simp add: sgn_if)
  finally have "toDouble (of_int n) = of_int (sgn n * r * 2 ^ k)" .
  then show ?thesis unfolding dbl_def by (simp only: floor_of_int)
qed

lemma dbl_exact [simp]: "\<bar>n\<bar> < 2 ^ 53 \<Longrightarrow> dbl n = n"
  by (simp add: dbl_def toDouble_of_int)


lemma toDouble_bounds:
  assumes "0 \<le> x"
  shows "0 \<le> toDouble x" and "toDouble x \<le> 2 * x"
proof -
  have "0 \<le> toDouble x \<and> toDouble x \<le> 2 * x"
  proof (cases "x = 0")
    case True
    then show ?thesis by (simp add: toDouble_def)
  next
    case False
    then have x: "0 < x" using assms by simp
    define u :: rat where "u = 2 powi (exponent x - 52)"
    have u: "0 < u" by (simp add: u_def)
    have "2 powi exponent x \<le> x" using x by (rule exponent_bounds)
    moreover have "(2::rat) powi exponent x = 2 ^ 52 * u"
      by (simp add: u_def power_int_diff)
    ultimately have y: "2 ^ 52 \<le> x / u" using u by (simp add: pos_le_divide_eq)
    define r where "r = round_half_even (x / u)"
    have r1: "of_int r \<le> x / u + 1 / 2" unfolding r_def by (rule round_half_even_upper)
    have r2: "x / u - 1 / 2 \<le> of_int r" unfolding r_def by (rule round_half_even_lower)
    have t: "toDouble x = of_int r * u"
      using x by (simp add: toDouble_def Let_def u_def r_def)
    have one: "(1::rat) \<le> 2 ^ 52" by simp
    have "0 \<le> (of_int r :: rat)" using r2 y one by linarith
    then have a: "0 \<le> toDouble x" using u by (simp add: t)
    have "of_int r \<le> 2 * (x / u)" using r1 y one by linarith
    then have "of_int r * u \<le> 2 * (x / u) * u" using u by (simp only: mult_le_cancel_right_pos)
    then have b: "toDouble x \<le> 2 * x" using u by (simp add: t)
    show ?thesis using a b by simp
  qed
  then show "0 \<le> toDouble x" and "toDouble x \<le> 2 * x" by simp_all
qed

lemma floor_toDouble_div26:
  assumes "0 \<le> a" and "a < 2 ^ 53"
  shows "\<lfloor>toDouble (of_int a / 26)\<rfloor> = a div 26"
proof (cases "a = 0")
  case True
  then show ?thesis by (simp add: toDouble_def)
next
  case False
  define m where "m = a div 26"
  define k where "k = a mod 26"
  have k: "0 \<le> k" "k \<le> 25" by (simp_all add: k_def)
  have a: "a = 26 * m + k" by (simp add: m_def k_def)
  define x :: rat where "x = of_int a / 26"
  have x: "0 < x" using False assms(1) by (simp add: x_def)
  have xm: "x = of_int m + of_int k / 26" by (simp add: x_def a)
  have "(of_int a :: rat) < of_int (2 ^ 53)" using assms(2) by (simp only: of_int_less_iff)
  then have "x < 2 ^ 53 / 26" by (simp add: x_def)
  also have "\<dots> < 2 powi 49" by simp
  finally have e: "exponent x < 49" using x by (intro exponent_less)
  define j where "j = nat (52 - exponent x)"
  have j: "4 \<le> j" using e by (simp add: j_def)
  have u: "(2::rat) powi (exponent x - 52) = 1 / 2 ^ j"
    using e by (simp add: power_int_def j_def field_simps)
  define r where "r = round_half_even (x * 2 ^ j)"
  have t: "toDouble x = of_int r / 2 ^ j"
    using x by (simp add: toDouble_def Let_def u r_def)
  have p16: "(16::rat) \<le> 2 ^ j"
  proof -
    have "(2::rat) ^ 4 \<le> 2 ^ j" using j by (intro power_increasing) simp_all
    then show ?thesis by simp
  qed
  have r1: "of_int r \<le> x * 2 ^ j + 1 / 2" unfolding r_def by (rule round_half_even_upper)
  have r2: "x * 2 ^ j - 1 / 2 \<le> of_int r" unfolding r_def by (rule round_half_even_lower)
  have lo: "of_int (m * 2 ^ j) \<le> (of_int r :: rat)"
  proof -
    have "of_int (m * 2 ^ j) \<le> x * 2 ^ j"
      using k by (simp add: xm algebra_simps)
    then have "of_int (m * 2 ^ j) - 1 / 2 \<le> (of_int r :: rat)" using r2 by linarith
    then have "of_int (m * 2 ^ j) - 1 < (of_int r :: rat)" by linarith
    then have "of_int (m * 2 ^ j - 1) < (of_int r :: rat)" by simp
    then have "m * 2 ^ j - 1 < r" by (simp only: of_int_less_iff)
    then have "m * 2 ^ j \<le> r" by simp
    then show ?thesis by (simp only: of_int_le_iff)
  qed
  have hi: "(of_int r :: rat) < of_int ((m + 1) * 2 ^ j)"
  proof -
    have "of_int k / 26 * 2 ^ j \<le> 25 / 26 * (2::rat) ^ j"
      using k by (simp add: field_simps)
    then have "x * 2 ^ j \<le> of_int m * 2 ^ j + 25 / 26 * 2 ^ j"
      by (simp add: xm algebra_simps)
    also have "\<dots> = of_int (m + 1) * 2 ^ j - 2 ^ j / 26" by (simp add: algebra_simps)
    also have "\<dots> < of_int (m + 1) * 2 ^ j - 1 / 2" using p16 by simp
    finally have "x * 2 ^ j + 1 / 2 < of_int (m + 1) * 2 ^ j" by simp
    then show ?thesis using r1 by simp
  qed
  have "of_int m \<le> toDouble x"
    using lo by (simp add: t pos_le_divide_eq)
  moreover have "toDouble x < of_int (m + 1)"
    using hi by (simp add: t pos_divide_less_eq)
  ultimately have "\<lfloor>toDouble x\<rfloor> = m" by (simp add: floor_unique)
  then show ?thesis by (simp add: x_def m_def)
qed

lemma dbl_nonneg: "0 \<le> n \<Longrightarrow> 0 \<le> dbl n"
  by (simp add: dbl_def toDouble_bounds)

lemma dbl_le: "0 \<le> n \<Longrightarrow> dbl n \<le> 2 * n"
proof -
  assume "0 \<le> n"
  then have "toDouble (of_int n) \<le> of_int (2 * n)"
    using toDouble_bounds(2) [of "of_int n"] by simp
  then show ?thesis by (simp add: dbl_def floor_le_iff del: of_int_mult)
qed

lemma dbl_big:
  assumes "2 ^ 53 \<le> n"
  shows "2 ^ 53 \<le> dbl n"
proof -
  define x :: rat where "x = of_int n"
  have "(of_int (2 ^ 53) :: rat) \<le> of_int n" using assms by (simp only: of_int_le_iff)
  then have x53: "2 powi 53 \<le> x" by (simp add: x_def)
  moreover have "(0::rat) < 2 powi 53" by simp
  ultimately have x: "0 < x" by linarith
  have e: "53 \<le> exponent x" using x x53 by (rule exponent_ge)
  define u :: rat where "u = 2 powi (exponent x - 52)"
  have u: "0 < u" by (simp add: u_def)
  have "2 powi exponent x \<le> x" using x by (rule exponent_bounds)
  moreover have eu: "(2::rat) powi exponent x = 2 ^ 52 * u"
    by (simp add: u_def power_int_diff)
  ultimately have y: "2 ^ 52 \<le> x / u" using u by (simp add: pos_le_divide_eq)
  define r where "r = round_half_even (x / u)"
  have r2: "x / u - 1 / 2 \<le> of_int r" unfolding r_def by (rule round_half_even_lower)
  have "(of_int (2 ^ 52 - 1) :: rat) < of_int r" using r2 y by simp
  then have "2 ^ 52 - 1 < r" by (simp only: of_int_less_iff)
  then have "2 ^ 52 \<le> r" by simp
  then have "(of_int (2 ^ 52) :: rat) \<le> of_int r" by (simp only: of_int_le_iff)
  then have a: "of_int (2 ^ 52) * u \<le> of_int r * u"
    using u by (simp only: mult_le_cancel_right_pos)
  have b: "(2::rat) powi 53 \<le> 2 powi exponent x"
    using e by (intro power_int_increasing) simp_all
  have t: "toDouble x = of_int r * u"
    using x by (simp add: toDouble_def Let_def u_def r_def)
  have c: "(of_int (2 ^ 52) :: rat) * u = 2 ^ 52 * u" by simp
  have "(2::rat) powi 53 \<le> toDouble x" using a b eu t c by linarith
  moreover have "(2::rat) powi 53 = of_int (2 ^ 53)" by simp
  ultimately have "of_int (2 ^ 53) \<le> toDouble x" by simp
  then show ?thesis unfolding dbl_def x_def by (simp only: le_floor_iff)
qed


text \<open>The loop of \<^verbatim>\<open>numberToColumnLetter\<close> ends: the next number is at most
  4 (num - 1) / 26.\<close>

termination numberToColumnLetter_loop
proof (relation "measure (\<lambda>(num, result). nat num)")
  show "wf (measure (\<lambda>(num, result). nat num))" by simp
next
  fix num :: int and result :: string and x xa
  assume pos: "0 < num" and x: "x = dbl (num - 1)"
  have "0 \<le> x" using pos by (simp add: x dbl_nonneg)
  moreover have "x \<le> 2 * (num - 1)" unfolding x using pos by (intro dbl_le) simp
  ultimately have n: "0 \<le> x" "x \<le> 2 * (num - 1)" by simp_all
  have "toDouble (of_int x / 26) \<le> 2 * (of_int x / 26)"
    using n(1) by (intro toDouble_bounds) simp
  also have "\<dots> \<le> of_int (4 * (num - 1)) / 26"
    using n(2) by simp
  also have "\<dots> < of_int num" using pos by simp
  finally have "\<lfloor>toDouble (of_int x / 26)\<rfloor> < num" by (simp add: floor_less_iff)
  then show "((\<lfloor>toDouble (rat_of_int x / 26)\<rfloor>, xa), num, result)
       \<in> measure (\<lambda>(num, result). nat num)" using pos by simp
qed

declare numberToColumnLetter_loop.simps [simp del]


section \<open>Properties of the column conversions\<close>

lemma numberToColumnLetter_loop_append:
  "numberToColumnLetter_loop num (acc @ rest) = numberToColumnLetter_loop num acc @ rest"
proof (induction num acc rule: numberToColumnLetter_loop.induct)
  case (1 num result)
  show ?case
  proof (cases "num > 0")
    case True
    then show ?thesis
      using "1" [OF True refl refl]
      by (subst (1 2) numberToColumnLetter_loop.simps) (simp add: Let_def)
  next
    case False
    then show ?thesis by (simp add: numberToColumnLetter_loop.simps)
  qed
qed

lemma numberToColumnLetter_loop_acc:
  "numberToColumnLetter_loop num acc = numberToColumnLetter_loop num [] @ acc"
  using numberToColumnLetter_loop_append [of num "[]" acc] by simp

text \<open>One turn of the loop on a number below 2^53: no rounding.\<close>

lemma numberToColumnLetter_step:
  assumes "0 < n" and "n < 2 ^ 53"
  shows "numberToColumnLetter n
         = numberToColumnLetter ((n - 1) div 26) @ [char_of (65 + (n - 1) mod 26)]"
proof -
  have d: "dbl (n - 1) = n - 1" using assms by (intro dbl_exact) simp
  have f: "\<lfloor>toDouble (of_int (n - 1) / 26)\<rfloor> = (n - 1) div 26"
    using assms by (intro floor_toDouble_div26) simp_all
  have "numberToColumnLetter_loop n []
      = numberToColumnLetter_loop ((n - 1) div 26) [char_of (65 + (n - 1) mod 26)]"
    by (subst numberToColumnLetter_loop.simps) (simp add: assms(1) Let_def d f del: of_int_diff)
  then show ?thesis
    unfolding numberToColumnLetter_def
    by (simp add: numberToColumnLetter_loop_acc [of _ "[_]"])
qed

lemma columnLetterToNumber_snoc:
  "columnLetterToNumber (s @ [c])
   = dbl (dbl (columnLetterToNumber s * 26) + (of_char c - 65 + 1))"
  by (simp add: columnLetterToNumber_def)

lemma columnLetterToNumber_nonneg: "list_all is_upper s \<Longrightarrow> 0 \<le> columnLetterToNumber s"
proof (induction s rule: rev_induct)
  case Nil
  then show ?case by (simp add: columnLetterToNumber_def)
next
  case (snoc c s)
  then have "0 \<le> columnLetterToNumber s" and "is_upper c" by simp_all
  then have "0 \<le> dbl (columnLetterToNumber s * 26) + (of_char c - 65 + 1)"
    using dbl_nonneg [of "columnLetterToNumber s * 26"] by (simp add: is_upper_def)
  then show ?case
    unfolding columnLetterToNumber_snoc by (rule dbl_nonneg)
qed

lemma dbl_small: "dbl n < 2 ^ 53 \<Longrightarrow> n < 2 ^ 53"
  using dbl_big [of n] by linarith

text \<open>A string of capitals whose number comes out below 2^53 was read
  without rounding.\<close>

lemma columnLetterToNumber_exact:
  assumes "list_all is_upper s" and "is_upper c"
    and "columnLetterToNumber (s @ [c]) < 2 ^ 53"
  shows "columnLetterToNumber (s @ [c]) = columnLetterToNumber s * 26 + (of_char c - 65 + 1)"
    and "columnLetterToNumber s < 2 ^ 53"
proof -
  define r where "r = columnLetterToNumber s"
  define d :: int where "d = of_char c - 65 + 1"
  have r: "0 \<le> r" unfolding r_def using assms(1) by (rule columnLetterToNumber_nonneg)
  have d: "1 \<le> d" "d \<le> 26" using assms(2) by (simp_all add: d_def is_upper_def)
  have "dbl (dbl (r * 26) + d) < 2 ^ 53"
    using assms(3) by (simp add: columnLetterToNumber_snoc r_def d_def)
  then have 1: "dbl (r * 26) + d < 2 ^ 53" by (rule dbl_small)
  then have "dbl (r * 26) < 2 ^ 53" using d by simp
  then have 2: "r * 26 < 2 ^ 53" by (rule dbl_small)
  then have e: "dbl (r * 26) = r * 26" using r by (intro dbl_exact) simp
  have e2: "dbl (r * 26 + d) = r * 26 + d" using 1 r d unfolding e by (intro dbl_exact) simp
  have "columnLetterToNumber (s @ [c]) = dbl (dbl (r * 26) + d)"
    unfolding columnLetterToNumber_snoc r_def d_def ..
  also have "\<dots> = r * 26 + d" by (simp only: e e2)
  finally show "columnLetterToNumber (s @ [c])
      = columnLetterToNumber s * 26 + (of_char c - 65 + 1)"
    unfolding r_def d_def .
  show "columnLetterToNumber s < 2 ^ 53" using 2 r by (simp add: r_def)
qed

lemma letters_of_number_of_letters:
  "list_all is_upper s \<Longrightarrow> columnLetterToNumber s < 2 ^ 53 \<Longrightarrow>
   numberToColumnLetter (columnLetterToNumber s) = s"
proof (induction s rule: rev_induct)
  case Nil
  then show ?case
    by (simp add: numberToColumnLetter_def columnLetterToNumber_def
        numberToColumnLetter_loop.simps)
next
  case (snoc c s)
  then have up: "is_upper c" and ups: "list_all is_upper s" by simp_all
  define d :: int where "d = of_char c - 65"
  have d: "0 \<le> d" "d < 26" using up by (auto simp: is_upper_def d_def)
  have nn: "0 \<le> columnLetterToNumber s" using ups by (rule columnLetterToNumber_nonneg)
  have n: "columnLetterToNumber (s @ [c]) = columnLetterToNumber s * 26 + d + 1"
    using columnLetterToNumber_exact(1) [OF ups up snoc.prems(2)] by (simp add: d_def)
  have small: "columnLetterToNumber s < 2 ^ 53"
    using columnLetterToNumber_exact(2) [OF ups up snoc.prems(2)] .
  have m: "(columnLetterToNumber s * 26 + d) mod 26 = d" using d by simp
  have dv: "(columnLetterToNumber s * 26 + d) div 26 = columnLetterToNumber s" using d by simp
  have ch: "char_of (65 + d) = c" unfolding d_def by simp
  have pos: "0 < columnLetterToNumber (s @ [c])" using nn d by (simp add: n)
  have n1: "columnLetterToNumber (s @ [c]) - 1 = columnLetterToNumber s * 26 + d"
    by (simp add: n)
  have "numberToColumnLetter (columnLetterToNumber (s @ [c]))
      = numberToColumnLetter ((columnLetterToNumber (s @ [c]) - 1) div 26)
        @ [char_of (65 + (columnLetterToNumber (s @ [c]) - 1) mod 26)]"
    using pos snoc.prems(2) by (rule numberToColumnLetter_step)
  also have "\<dots> = numberToColumnLetter (columnLetterToNumber s) @ [c]"
    by (simp only: n1 m dv ch)
  also have "\<dots> = s @ [c]"
    using snoc.IH [OF ups small] by simp
  finally show ?case .
qed

lemma number_of_letters_of_number:
  "0 \<le> n \<Longrightarrow> n < 2 ^ 53 \<Longrightarrow> columnLetterToNumber (numberToColumnLetter n) = n"
proof (induction "nat n" arbitrary: n rule: less_induct)
  case less
  show ?case
  proof (cases "n > 0")
    case True
    define q where "q = (n - 1) div 26"
    define r where "r = (n - 1) mod 26"
    have r: "0 \<le> r" "r < 26" by (simp_all add: r_def)
    have q: "0 \<le> q" "nat q < nat n" "q < 2 ^ 53" using True less.prems by (simp_all add: q_def)
    have qr: "q * 26 + r = n - 1" by (simp add: q_def r_def)
    have step: "numberToColumnLetter n = numberToColumnLetter q @ [char_of (65 + r)]"
      using numberToColumnLetter_step [OF True less.prems(2)] by (simp add: q_def r_def)
    have oc: "(65 + r) mod 256 = 65 + r"
      using r by simp
    have ih: "columnLetterToNumber (numberToColumnLetter q) = q"
      using less.hyps [OF q(2) q(1) q(3)] .
    have e1: "dbl (q * 26) = q * 26" using q(1) qr r less.prems by (intro dbl_exact) simp
    have e2: "dbl (q * 26 + (r + 1)) = q * 26 + (r + 1)"
      using q(1) qr r less.prems by (intro dbl_exact) simp
    show ?thesis
      using qr by (simp add: step columnLetterToNumber_snoc ih oc e1 e2)
  next
    case False
    with less.prems show ?thesis
      by (simp add: numberToColumnLetter_def numberToColumnLetter_loop.simps
          columnLetterToNumber_def)
  qed
qed

lemma numberToColumnLetter_loop_upper:
  "list_all is_upper acc \<Longrightarrow> list_all is_upper (numberToColumnLetter_loop n acc)"
proof (induction n acc rule: numberToColumnLetter_loop.induct)
  case (1 num result)
  show ?case
  proof (cases "num > 0")
    case True
    define r where "r = dbl (num - 1) mod 26"
    have r: "0 \<le> r" "r < 26" by (simp_all add: r_def)
    have oc: "(65 + r) mod 256 = 65 + r" using r by simp
    have "is_upper (char_of (65 + r))" using r by (simp add: is_upper_def oc)
    then have "list_all is_upper (char_of (of_char CHR ''A'' + dbl (num - 1) mod 26) # result)"
      using "1.prems" by (simp add: r_def)
    from "1.IH" [OF True refl refl this] show ?thesis
      by (subst numberToColumnLetter_loop.simps) (simp add: True Let_def)
  next
    case False
    then show ?thesis using "1.prems" by (simp add: numberToColumnLetter_loop.simps)
  qed
qed

lemma numberToColumnLetter_upper: "list_all is_upper (numberToColumnLetter n)"
  unfolding numberToColumnLetter_def by (rule numberToColumnLetter_loop_upper) simp

text \<open>Up to eleven letters the number stays below 27^11, which is below 2^53.\<close>

lemma columnLetterToNumber_short:
  "list_all is_upper s \<Longrightarrow> length s \<le> 11 \<Longrightarrow> columnLetterToNumber s + 1 \<le> 27 ^ length s"
proof (induction s rule: rev_induct)
  case Nil
  then show ?case by (simp add: columnLetterToNumber_def)
next
  case (snoc c s)
  then have up: "is_upper c" and ups: "list_all is_upper s" and len: "length s \<le> 10"
    by simp_all
  define r where "r = columnLetterToNumber s"
  define d :: int where "d = of_char c - 65 + 1"
  have r: "0 \<le> r" unfolding r_def using ups by (rule columnLetterToNumber_nonneg)
  have d: "1 \<le> d" "d \<le> 26" using up by (simp_all add: d_def is_upper_def)
  have ih: "r + 1 \<le> 27 ^ length s" unfolding r_def using snoc.IH ups len by simp
  have "(27::int) ^ length s \<le> 27 ^ 10" using len by (intro power_increasing) simp_all
  then have b: "r + 1 \<le> 27 ^ 10" using ih by linarith
  have e1: "dbl (r * 26) = r * 26" using r b by (intro dbl_exact) simp
  have e2: "dbl (r * 26 + d) = r * 26 + d" using r b d by (intro dbl_exact) simp
  have "columnLetterToNumber (s @ [c]) = r * 26 + d"
    by (simp add: columnLetterToNumber_snoc r_def [symmetric] d_def [symmetric] e1 e2)
  moreover have "(1::int) \<le> 27 ^ length s" by simp
  then have "r * 26 + d + 1 \<le> 27 * 27 ^ length s" using ih d by linarith
  ultimately show ?case by simp
qed

lemma columnLetterToNumber_short_small:
  assumes "list_all is_upper s" and "length s \<le> 11"
  shows "columnLetterToNumber s < 2 ^ 53"
proof -
  have "(27::int) ^ length s \<le> 27 ^ 11" using assms(2) by (intro power_increasing) simp_all
  then show ?thesis using columnLetterToNumber_short [OF assms] by simp
qed

text \<open>
  C3, as it holds of the code: for every string of one or more capitals A to
  Z whose number comes out below 2^53, as it does for every string of up to
  11 letters, converting it to a number and back gives the string again; for
  every positive integer below 2^53, converting it to letters and back gives
  the number again (and the letters are capitals); A is 1, Z is 26 and AA is
  27, the digits of base 26 starting at A = 1.
\<close>

theorem column_letter_number_roundtrip:
  "(s \<noteq> [] \<and> list_all is_upper s \<and> columnLetterToNumber s < 2 ^ 53
      \<longrightarrow> numberToColumnLetter (columnLetterToNumber s) = s)
   \<and> (list_all is_upper s \<and> length s \<le> 11 \<longrightarrow> columnLetterToNumber s < 2 ^ 53)
   \<and> (0 < n \<and> n < 2 ^ 53
      \<longrightarrow> columnLetterToNumber (numberToColumnLetter n) = n
          \<and> numberToColumnLetter n \<noteq> [] \<and> list_all is_upper (numberToColumnLetter n))
   \<and> columnLetterToNumber ''A'' = 1 \<and> numberToColumnLetter 1 = ''A''
   \<and> columnLetterToNumber ''Z'' = 26 \<and> numberToColumnLetter 26 = ''Z''
   \<and> columnLetterToNumber ''AA'' = 27 \<and> numberToColumnLetter 27 = ''AA''"
proof -
  have a: "s \<noteq> [] \<and> list_all is_upper s \<and> columnLetterToNumber s < 2 ^ 53
      \<longrightarrow> numberToColumnLetter (columnLetterToNumber s) = s"
    by (simp add: letters_of_number_of_letters)
  have a': "list_all is_upper s \<and> length s \<le> 11 \<longrightarrow> columnLetterToNumber s < 2 ^ 53"
    using columnLetterToNumber_short_small [of s] by blast
  have b: "0 < n \<and> n < 2 ^ 53 \<longrightarrow> columnLetterToNumber (numberToColumnLetter n) = n"
    by (simp add: number_of_letters_of_number)
  have c: "0 < n \<and> n < 2 ^ 53 \<longrightarrow> numberToColumnLetter n \<noteq> []"
  proof
    assume "0 < n \<and> n < 2 ^ 53"
    then have "columnLetterToNumber (numberToColumnLetter n) \<noteq> 0"
      by (simp add: number_of_letters_of_number)
    moreover have "columnLetterToNumber [] = 0"
      by (simp add: columnLetterToNumber_def)
    ultimately show "numberToColumnLetter n \<noteq> []" by auto
  qed
  have d: "columnLetterToNumber ''A'' = 1" "columnLetterToNumber ''Z'' = 26"
    "columnLetterToNumber ''AA'' = 27"
    by (simp_all add: columnLetterToNumber_def)
  have e: "numberToColumnLetter 1 = ''A''" "numberToColumnLetter 26 = ''Z''"
    "numberToColumnLetter 27 = ''AA''"
    by code_simp+
  show ?thesis
    using a a' b c d e numberToColumnLetter_upper [of n] by blast
qed

theorem column_letter_number_roundtrip_witness:
  "''XFD'' \<noteq> [] \<and> list_all is_upper ''XFD'' \<and> length ''XFD'' \<le> 11
   \<and> columnLetterToNumber ''XFD'' = 16384
   \<and> numberToColumnLetter (columnLetterToNumber ''XFD'') = ''XFD''
   \<and> (0::int) < 16384 \<and> (16384::int) < 2 ^ 53
   \<and> columnLetterToNumber (numberToColumnLetter 16384) = 16384"
proof -
  have v: "columnLetterToNumber ''XFD'' = 16384"
    by (simp add: columnLetterToNumber_def)
  show ?thesis
    using column_letter_number_roundtrip [of "''XFD''" 16384]
    by (simp add: is_upper_def v)
qed

text \<open>
  The claim C3 as it stands fails beyond 2^53, where the numbers of the code
  are no longer exact: the twelve letters ZZZZZZZZZZZZ come back as thirteen
  other letters, and the number 2^53 + 2 comes back as 2^53.
\<close>

theorem column_letter_number_roundtrip_counterexample:
  "list_all is_upper ''ZZZZZZZZZZZZ''
   \<and> numberToColumnLetter (columnLetterToNumber ''ZZZZZZZZZZZZ'') = ''AAAAAAAAAAAAK''
   \<and> columnLetterToNumber (numberToColumnLetter (2 ^ 53 + 2)) = 2 ^ 53"
proof -
  have 1: "list_all is_upper ''ZZZZZZZZZZZZ''" by (simp add: is_upper_def)
  have 2: "numberToColumnLetter (columnLetterToNumber ''ZZZZZZZZZZZZ'') = ''AAAAAAAAAAAAK''"
    by code_simp
  have 3: "columnLetterToNumber (numberToColumnLetter (2 ^ 53 + 2)) = 2 ^ 53"
    by code_simp
  show ?thesis using 1 2 3 by (intro conjI)
qed

section \<open>Properties of dotted-path resolution\<close>

lemma split_on_not_Nil: "split_on sep s \<noteq> []"
  by (induction s) (auto split: list.splits)







lemma nested_step_not_undefined: "nested_step current key \<noteq> JUndefined"
  by (simp add: nested_step_def)

lemma getNestedValue_not_undefined: "getNestedValue obj path \<noteq> JUndefined"
proof -
  obtain keys key where "split_on CHR ''.'' path = keys @ [key]"
    using split_on_not_Nil [of "CHR ''.''" path] by (metis rev_exhaust)
  then show ?thesis
    by (simp add: getNestedValue_def nested_step_not_undefined)
qed







section \<open>Properties of the mapping engine\<close>


lemma ws_name_modifyCell [simp]: "ws_name (modifyCell ws rc f) = ws_name ws"
  by (simp add: modifyCell_def)

lemma ws_tables_modifyCell [simp]: "ws_tables (modifyCell ws rc f) = ws_tables ws"
  by (simp add: modifyCell_def)

lemma ws_cells_modifyCell:
  "ws_cells (modifyCell ws rc f) rc' = (if rc' = rc then f (ws_cells ws rc) else ws_cells ws rc')"
  by (simp add: modifyCell_def)



lemma cell_value_applyCellStyle [simp]: "cell_value (applyCellStyle c st) = cell_value c"
  by (simp add: applyCellStyle_def Let_def split: option.splits)

lemma cell_value_applyCellFormat [simp]: "cell_value (applyCellFormat c fmt) = cell_value c"
  by (simp add: applyCellFormat_def Let_def split: option.splits)






section \<open>Properties of the table builder\<close>

lemma cell_value_rowFill [simp]: "cell_value (rowFill cfg ri c) = cell_value c"
  by (simp add: rowFill_def Let_def split: option.splits)

lemma cell_value_headerCell [simp]: "cell_value (headerCell cfg h c) = Plain (JStr h)"
  by (simp add: headerCell_def Let_def split: option.splits)

lemma ws_tables_writeHeaders [simp]:
  "ws_tables (writeHeaders cfg sr sc k hs ws) = ws_tables ws"
  by (induction hs arbitrary: k ws) simp_all

lemma ws_tables_writeArrayRow [simp]:
  "ws_tables (writeArrayRow cfg r sc ri k vs ws) = ws_tables ws"
  by (induction vs arbitrary: k ws) simp_all

lemma ws_tables_writeObjectRow:
  "writeObjectRow cfg r sc ri k row cols ws = Inr ws' \<Longrightarrow> ws_tables ws' = ws_tables ws"
  by (induction cols arbitrary: k ws) (auto split: sum.splits)

lemma ws_tables_writeDataRow:
  "writeDataRow cfg sr sc ri row ws = Inr ws' \<Longrightarrow> ws_tables ws' = ws_tables ws"
  by (auto simp: writeDataRow_def Let_def ws_tables_writeObjectRow
      split: jsval.splits if_splits)

lemma ws_tables_writeDataRows:
  "writeDataRows cfg sr sc ri rows ws = Inr ws' \<Longrightarrow> ws_tables ws' = ws_tables ws"
proof (induction rows arbitrary: ri ws)
  case Nil
  then show ?case by simp
next
  case (Cons row rows)
  then show ?case
    by (auto split: sum.splits dest: ws_tables_writeDataRow)
qed

subsection \<open>Cells that a loop leaves alone\<close>

lemma writeHeaders_frame:
  "fst rc \<noteq> sr \<or> snd rc < sc + int k \<or> sc + int (k + length hs) \<le> snd rc \<Longrightarrow>
   ws_cells (writeHeaders cfg sr sc k hs ws) rc = ws_cells ws rc"
proof (induction hs arbitrary: k ws)
  case Nil
  then show ?case by simp
next
  case (Cons h hs)
  have "ws_cells (writeHeaders cfg sr sc (Suc k) hs
           (modifyCell ws (sr, sc + int k) (headerCell cfg h))) rc
        = ws_cells (modifyCell ws (sr, sc + int k) (headerCell cfg h)) rc"
    using Cons.prems by (intro Cons.IH) auto
  also have "\<dots> = ws_cells ws rc"
    using Cons.prems by (cases rc) (auto simp: ws_cells_modifyCell)
  finally show ?case by simp
qed

lemma writeArrayRow_frame:
  "fst rc \<noteq> r \<or> snd rc < sc + int k \<or> sc + int (length (t_columns cfg)) \<le> snd rc \<Longrightarrow>
   ws_cells (writeArrayRow cfg r sc ri k vs ws) rc = ws_cells ws rc"
proof (induction vs arbitrary: k ws)
  case Nil
  then show ?case by simp
next
  case (Cons v vs)
  let ?ws1 = "if k < length (t_columns cfg)
        then modifyCell ws (r, sc + int k) (\<lambda>c. rowFill cfg ri (c\<lparr>cell_value := Plain v\<rparr>))
        else ws"
  have "ws_cells (writeArrayRow cfg r sc ri (Suc k) vs ?ws1) rc = ws_cells ?ws1 rc"
    using Cons.prems by (intro Cons.IH) auto
  also have "\<dots> = ws_cells ws rc"
    using Cons.prems by (cases rc) (auto simp: ws_cells_modifyCell)
  finally show ?case by simp
qed

lemma writeObjectRow_frame:
  "writeObjectRow cfg r sc ri k row cols ws = Inr ws' \<Longrightarrow>
   fst rc \<noteq> r \<or> snd rc < sc + int k \<or> sc + int (k + length cols) \<le> snd rc \<Longrightarrow>
   ws_cells ws' rc = ws_cells ws rc"
proof (induction cols arbitrary: k ws)
  case Nil
  then show ?case by simp
next
  case (Cons col cols)
  from Cons.prems(1) obtain v where
    g: "getProp row col = Inr v" and
    rest: "writeObjectRow cfg r sc ri (Suc k) row cols
             (modifyCell ws (r, sc + int k)
                (\<lambda>c. rowFill cfg ri (c\<lparr>cell_value := Plain (js_or v (JStr []))\<rparr>))) = Inr ws'"
    by (auto split: sum.splits)
  have "ws_cells ws' rc
        = ws_cells (modifyCell ws (r, sc + int k)
                (\<lambda>c. rowFill cfg ri (c\<lparr>cell_value := Plain (js_or v (JStr []))\<rparr>))) rc"
    using Cons.prems(2) by (intro Cons.IH [OF rest]) auto
  also have "\<dots> = ws_cells ws rc"
    using Cons.prems(2) by (cases rc) (auto simp: ws_cells_modifyCell)
  finally show ?case .
qed

lemma writeDataRow_frame:
  "writeDataRow cfg sr sc ri row ws = Inr ws' \<Longrightarrow>
   fst rc \<noteq> sr + int ri + 1 \<or> snd rc < sc \<or> sc + int (length (t_columns cfg)) \<le> snd rc \<Longrightarrow>
   ws_cells ws' rc = ws_cells ws rc"
proof (cases row)
  case (JArr vs)
  assume "writeDataRow cfg sr sc ri row ws = Inr ws'"
    and "fst rc \<noteq> sr + int ri + 1 \<or> snd rc < sc \<or> sc + int (length (t_columns cfg)) \<le> snd rc"
  then show ?thesis
    using JArr writeArrayRow_frame [of rc "sr + int ri + 1" sc 0 cfg ri vs ws]
    by (auto simp: writeDataRow_def Let_def)
qed (auto simp: writeDataRow_def Let_def split: if_splits
      dest!: writeObjectRow_frame [where rc = rc])

lemma writeDataRows_frame:
  "writeDataRows cfg sr sc ri rows ws = Inr ws' \<Longrightarrow>
   fst rc \<le> sr + int ri \<or> sr + int (ri + length rows) < fst rc
     \<or> snd rc < sc \<or> sc + int (length (t_columns cfg)) \<le> snd rc \<Longrightarrow>
   ws_cells ws' rc = ws_cells ws rc"
proof (induction rows arbitrary: ri ws)
  case Nil
  then show ?case by simp
next
  case (Cons row rows)
  from Cons.prems(1) obtain ws1 where
    one: "writeDataRow cfg sr sc ri row ws = Inr ws1" and
    rest: "writeDataRows cfg sr sc (Suc ri) rows ws1 = Inr ws'"
    by (auto split: sum.splits)
  have "ws_cells ws' rc = ws_cells ws1 rc"
    using Cons.prems(2) by (intro Cons.IH [OF rest]) auto
  also have "\<dots> = ws_cells ws rc"
    using Cons.prems(2) by (intro writeDataRow_frame [OF one]) auto
  finally show ?case .
qed

subsection \<open>Cells that a loop writes\<close>

lemma writeArrayRow_hit:
  "j < length vs \<Longrightarrow> k + j < length (t_columns cfg) \<Longrightarrow>
   cell_value (ws_cells (writeArrayRow cfg r sc ri k vs ws) (r, sc + int (k + j))) = Plain (vs ! j)"
proof (induction vs arbitrary: k j ws)
  case Nil
  then show ?case by simp
next
  case (Cons v vs)
  let ?ws1 = "if k < length (t_columns cfg)
        then modifyCell ws (r, sc + int k) (\<lambda>c. rowFill cfg ri (c\<lparr>cell_value := Plain v\<rparr>))
        else ws"
  show ?case
  proof (cases j)
    case 0
    have "ws_cells (writeArrayRow cfg r sc ri (Suc k) vs ?ws1) (r, sc + int k)
          = ws_cells ?ws1 (r, sc + int k)"
      by (intro writeArrayRow_frame) simp
    then show ?thesis
      using 0 Cons.prems by (simp add: ws_cells_modifyCell)
  next
    case (Suc j')
    then have "cell_value (ws_cells (writeArrayRow cfg r sc ri (Suc k) vs ?ws1)
                 (r, sc + int (Suc k + j'))) = Plain (vs ! j')"
      using Cons.prems by (intro Cons.IH) simp_all
    then show ?thesis using Suc by simp
  qed
qed

lemma writeHeaders_hit:
  "j < length hs \<Longrightarrow>
   cell_value (ws_cells (writeHeaders cfg sr sc k hs ws) (sr, sc + int (k + j)))
     = Plain (JStr (hs ! j))"
proof (induction hs arbitrary: k j ws)
  case Nil
  then show ?case by simp
next
  case (Cons h hs)
  let ?ws1 = "modifyCell ws (sr, sc + int k) (headerCell cfg h)"
  show ?case
  proof (cases j)
    case 0
    have "ws_cells (writeHeaders cfg sr sc (Suc k) hs ?ws1) (sr, sc + int k)
          = ws_cells ?ws1 (sr, sc + int k)"
      by (intro writeHeaders_frame) simp
    then show ?thesis
      using 0 by (simp add: ws_cells_modifyCell)
  next
    case (Suc j')
    then have "cell_value (ws_cells (writeHeaders cfg sr sc (Suc k) hs ?ws1)
                 (sr, sc + int (Suc k + j'))) = Plain (JStr (hs ! j'))"
      using Cons.prems by (intro Cons.IH) simp
    then show ?thesis using Suc by simp
  qed
qed

lemma getProp_Inr: "getProp row col = Inr v \<Longrightarrow> v = lookup row col"
  by (auto simp: getProp_def split: if_splits)

lemma getProp_ok: "row \<noteq> JNull \<Longrightarrow> row \<noteq> JUndefined \<Longrightarrow> getProp row col = Inr (lookup row col)"
  by (simp add: getProp_def)

lemma writeObjectRow_hit:
  "writeObjectRow cfg r sc ri k row cols ws = Inr ws' \<Longrightarrow> j < length cols \<Longrightarrow>
   cell_value (ws_cells ws' (r, sc + int (k + j))) = Plain (js_or (lookup row (cols ! j)) (JStr []))"
proof (induction cols arbitrary: k j ws)
  case Nil
  then show ?case by simp
next
  case (Cons col cols)
  from Cons.prems(1) obtain v where
    g: "getProp row col = Inr v" and
    rest: "writeObjectRow cfg r sc ri (Suc k) row cols
             (modifyCell ws (r, sc + int k)
                (\<lambda>c. rowFill cfg ri (c\<lparr>cell_value := Plain (js_or v (JStr []))\<rparr>))) = Inr ws'"
    by (auto split: sum.splits)
  show ?case
  proof (cases j)
    case 0
    have "ws_cells ws' (r, sc + int k)
          = ws_cells (modifyCell ws (r, sc + int k)
                (\<lambda>c. rowFill cfg ri (c\<lparr>cell_value := Plain (js_or v (JStr []))\<rparr>))) (r, sc + int k)"
      by (intro writeObjectRow_frame [OF rest]) simp
    then show ?thesis
      using 0 getProp_Inr [OF g] by (simp add: ws_cells_modifyCell)
  next
    case (Suc j')
    then have "cell_value (ws_cells ws' (r, sc + int (Suc k + j')))
          = Plain (js_or (lookup row (cols ! j')) (JStr []))"
      using Cons.prems(2) by (intro Cons.IH [OF rest]) simp
    then show ?thesis using Suc by simp
  qed
qed

lemma writeDataRows_array_hit:
  "writeDataRows cfg sr sc ri rows ws = Inr ws' \<Longrightarrow> i < length rows \<Longrightarrow> rows ! i = JArr vs \<Longrightarrow>
   j < length vs \<Longrightarrow> j < length (t_columns cfg) \<Longrightarrow>
   cell_value (ws_cells ws' (sr + int (ri + i) + 1, sc + int j)) = Plain (vs ! j)"
proof (induction rows arbitrary: ri i ws)
  case Nil
  then show ?case by simp
next
  case (Cons row rows)
  from Cons.prems(1) obtain ws1 where
    one: "writeDataRow cfg sr sc ri row ws = Inr ws1" and
    rest: "writeDataRows cfg sr sc (Suc ri) rows ws1 = Inr ws'"
    by (auto split: sum.splits)
  show ?case
  proof (cases i)
    case 0
    with Cons.prems have row: "row = JArr vs" by simp
    have "ws_cells ws' (sr + int ri + 1, sc + int j) = ws_cells ws1 (sr + int ri + 1, sc + int j)"
      by (intro writeDataRows_frame [OF rest]) simp
    moreover have "ws1 = writeArrayRow cfg (sr + int ri + 1) sc ri 0 vs ws"
      using one row by (simp add: writeDataRow_def)
    ultimately show ?thesis
      using 0 writeArrayRow_hit [of j vs 0 cfg "sr + int ri + 1" sc ri ws] Cons.prems
      by simp
  next
    case (Suc i')
    then have "cell_value (ws_cells ws' (sr + int (Suc ri + i') + 1, sc + int j)) = Plain (vs ! j)"
      using Cons.prems by (intro Cons.IH [OF rest]) simp_all
    then show ?thesis using Suc by (simp add: add.commute add.left_commute)
  qed
qed

lemma writeDataRows_object_hit:
  "writeDataRows cfg sr sc ri rows ws = Inr ws' \<Longrightarrow> i < length rows \<Longrightarrow> rows ! i = JObj kvs \<Longrightarrow>
   j < length (t_columns cfg) \<Longrightarrow>
   cell_value (ws_cells ws' (sr + int (ri + i) + 1, sc + int j))
     = Plain (js_or (lookup (JObj kvs) (t_columns cfg ! j)) (JStr []))"
proof (induction rows arbitrary: ri i ws)
  case Nil
  then show ?case by simp
next
  case (Cons row rows)
  from Cons.prems(1) obtain ws1 where
    one: "writeDataRow cfg sr sc ri row ws = Inr ws1" and
    rest: "writeDataRows cfg sr sc (Suc ri) rows ws1 = Inr ws'"
    by (auto split: sum.splits)
  show ?case
  proof (cases i)
    case 0
    with Cons.prems have row: "row = JObj kvs" by simp
    have "ws_cells ws' (sr + int ri + 1, sc + int j) = ws_cells ws1 (sr + int ri + 1, sc + int j)"
      by (intro writeDataRows_frame [OF rest]) simp
    moreover have "writeObjectRow cfg (sr + int ri + 1) sc ri 0 (JObj kvs) (t_columns cfg) ws = Inr ws1"
      using one row by (simp add: writeDataRow_def typeof_def)
    ultimately show ?thesis
      using 0 writeObjectRow_hit [of cfg "sr + int ri + 1" sc ri 0 "JObj kvs" "t_columns cfg" ws ws1 j]
        Cons.prems
      by simp
  next
    case (Suc i')
    then have "cell_value (ws_cells ws' (sr + int (Suc ri + i') + 1, sc + int j))
        = Plain (js_or (lookup (JObj kvs) (t_columns cfg ! j)) (JStr []))"
      using Cons.prems by (intro Cons.IH [OF rest]) simp_all
    then show ?thesis using Suc by (simp add: add.commute add.left_commute)
  qed
qed

subsection \<open>When the loops return and when they throw\<close>

lemma writeObjectRow_ok:
  "row \<noteq> JNull \<Longrightarrow> row \<noteq> JUndefined \<Longrightarrow> \<exists>ws'. writeObjectRow cfg r sc ri k row cols ws = Inr ws'"
  by (induction cols arbitrary: k ws) (simp_all add: getProp_ok)

lemma writeDataRow_ok:
  "row \<noteq> JNull \<Longrightarrow> \<exists>ws'. writeDataRow cfg sr sc ri row ws = Inr ws'"
  by (cases row) (simp_all add: writeDataRow_def typeof_def writeObjectRow_ok)

lemma writeDataRows_ok:
  "JNull \<notin> set rows \<Longrightarrow> \<exists>ws'. writeDataRows cfg sr sc ri rows ws = Inr ws'"
proof (induction rows arbitrary: ri ws)
  case Nil
  then show ?case by simp
next
  case (Cons row rows)
  then obtain ws1 where "writeDataRow cfg sr sc ri row ws = Inr ws1"
    using writeDataRow_ok [of row cfg sr sc ri ws] by auto
  then show ?case using Cons by simp
qed

lemma mapThrow_ok:
  "\<forall>x \<in> set xs. f x = Inr (g x) \<Longrightarrow> mapThrow f xs = Inr (map g xs)"
  by (induction xs) simp_all

lemma tableRow_ok:
  "row \<noteq> JNull \<Longrightarrow> row \<noteq> JUndefined \<Longrightarrow>
   tableRow cfg row =
     Inr (case row of
            JArr vs \<Rightarrow> vs
          | _ \<Rightarrow> map (\<lambda>col. js_or (lookup row col) (JStr [])) (t_columns cfg))"
  by (cases row)
     (simp_all add: tableRow_def mapThrow_ok [where g = "\<lambda>col. js_or (lookup row col) (JStr [])"]
        thenDo_def getProp_ok)

text \<open>The message of the \<^verbatim>\<open>TypeError\<close> for reading a property of \<^verbatim>\<open>null\<close>.\<close>

lemma writeObjectRow_null:
  "cols \<noteq> [] \<Longrightarrow>
   writeObjectRow cfg r sc ri k JNull cols ws =
     Inl (JsTypeError (''Cannot read properties of null (reading '' @ [CHR 0x27] @ hd cols
                         @ [CHR 0x27] @ '')''))"
  by (cases cols) (simp_all add: getProp_def)

lemma writeDataRow_null:
  "t_columns cfg \<noteq> [] \<Longrightarrow>
   writeDataRow cfg sr sc ri JNull ws =
     Inl (JsTypeError (''Cannot read properties of null (reading '' @ [CHR 0x27]
                         @ hd (t_columns cfg) @ [CHR 0x27] @ '')''))"
  by (simp add: writeDataRow_def typeof_def writeObjectRow_null)

lemma writeDataRows_null:
  "JNull \<in> set rows \<Longrightarrow> t_columns cfg \<noteq> [] \<Longrightarrow>
   writeDataRows cfg sr sc ri rows ws =
     Inl (JsTypeError (''Cannot read properties of null (reading '' @ [CHR 0x27]
                         @ hd (t_columns cfg) @ [CHR 0x27] @ '')''))"
proof (induction rows arbitrary: ri ws)
  case Nil
  then show ?case by simp
next
  case (Cons row rows)
  show ?case
  proof (cases "row = JNull")
    case True
    then show ?thesis using Cons.prems by (simp add: writeDataRow_null)
  next
    case False
    then obtain ws1 where "writeDataRow cfg sr sc ri row ws = Inr ws1"
      using writeDataRow_ok [of row cfg sr sc ri ws] by auto
    then show ?thesis using Cons False by simp
  qed
qed

subsection \<open>Cell references\<close>

lemma match_cell_ref_Some:
  "match_cell_ref s = Some (letters, digits) \<Longrightarrow>
   s = letters @ digits \<and> letters \<noteq> [] \<and> list_all is_upper letters
   \<and> digits \<noteq> [] \<and> list_all is_digit digits"
  by (auto simp: match_cell_ref_def Let_def list_all_iff split: if_splits
      dest: set_takeWhileD)

subsection \<open>The whole of createTable\<close>

lemma lookup_length [simp]: "lookup (JArr rows) ''length'' = JNum (of_nat (length rows))"
  by (simp add: is_index_def is_digit_def)

lemma createTable_rows:
  "rows \<noteq> [] \<Longrightarrow> match_cell_ref (t_startCell cfg) = Some (letters, digits) \<Longrightarrow>
   createTable ws cfg (JArr rows) =
     thenDo (writeDataRows cfg (parseInt digits) (columnLetterToNumber letters) 0 rows
               (writeHeaders cfg (parseInt digits) (columnLetterToNumber letters) 0
                  (t_columns cfg) ws)) (\<lambda>ws2.
     thenDo (mapThrow (tableRow cfg) rows) (\<lambda>trows.
       addTable ws2
         \<lparr>tbl_name = t_tableName cfg,
          tbl_ref = tableRef cfg (columnLetterToNumber letters) (parseInt digits) (length rows),
          tbl_headerRow = True,
          tbl_theme = ''TableStyleMedium9'',
          tbl_showRowStripes = True,
          tbl_columns = t_columns cfg,
          tbl_rows = trows\<rparr>))"
  by (simp add: createTable_def Let_def del: lookup.simps)

lemma createTable_no_match:
  "rows \<noteq> [] \<Longrightarrow> match_cell_ref (t_startCell cfg) = None \<Longrightarrow>
   createTable ws cfg (JArr rows) = Inl (JsError (''Invalid start cell: '' @ t_startCell cfg))"
  by (simp add: createTable_def del: lookup.simps)

lemma createTable_null_row:
  assumes "JNull \<in> set rows" and "t_columns cfg \<noteq> []"
  shows "createTable ws cfg (JArr rows) =
     (case match_cell_ref (t_startCell cfg) of
        None \<Rightarrow> Inl (JsError (''Invalid start cell: '' @ t_startCell cfg))
      | Some m \<Rightarrow>
          Inl (JsTypeError (''Cannot read properties of null (reading '' @ [CHR 0x27]
                              @ hd (t_columns cfg) @ [CHR 0x27] @ '')'')))"
proof (cases "match_cell_ref (t_startCell cfg)")
  case None
  have "rows \<noteq> []" using assms(1) by auto
  then show ?thesis using None by (simp add: createTable_no_match)
next
  case (Some m)
  obtain letters digits where "m = (letters, digits)" by (cases m)
  with Some have ma: "match_cell_ref (t_startCell cfg) = Some (letters, digits)" by simp
  have ne: "rows \<noteq> []" using assms(1) by auto
  show ?thesis
    unfolding createTable_rows [OF ne ma]
    by (simp add: writeDataRows_null [OF assms] thenDo_def Some)
qed

lemma createTable_empty: "createTable ws cfg (JArr []) = Inr ws"
  by (simp add: createTable_def is_index_def is_digit_def)

subsection \<open>When addTable takes the table\<close>

lemma ws_tables_storeHeader [simp]:
  "ws_tables (storeHeader row col j names ws) = ws_tables ws"
  by (induction names arbitrary: j ws) simp_all

lemma storeRow_ok:
  "j + length data \<le> width \<Longrightarrow>
   \<exists>ws1. storeRow width row col j data ws = Inr ws1 \<and> ws_tables ws1 = ws_tables ws"
proof (induction data arbitrary: j ws)
  case Nil
  then show ?case by simp
next
  case (Cons v data)
  then have "j < width" and "Suc j + length data \<le> width" by simp_all
  then show ?case
    using Cons.IH [of "Suc j" "modifyCell ws (row, col + int j) (\<lambda>c. c\<lparr>cell_value := Plain v\<rparr>)"]
    by simp
qed

lemma storeRows_ok:
  "\<forall>data \<in> set rows. length data \<le> width \<Longrightarrow>
   \<exists>ws1. storeRows width row col rows ws = Inr ws1 \<and> ws_tables ws1 = ws_tables ws"
proof (induction rows arbitrary: row ws)
  case Nil
  then show ?case by simp
next
  case (Cons data rows)
  then obtain ws1 where 1: "storeRow width row col 0 data ws = Inr ws1"
      and t: "ws_tables ws1 = ws_tables ws"
    using storeRow_ok [of 0 data width row col ws] by auto
  obtain ws2 where "storeRows width (row + 1) col rows ws1 = Inr ws2"
      and "ws_tables ws2 = ws_tables ws1"
    using Cons.IH [of "row + 1" ws1] Cons.prems by auto
  then show ?case using 1 t by simp
qed

lemma unnamedColumn_None: "[] \<notin> set names \<Longrightarrow> unnamedColumn names = None"
  by (auto simp: unnamedColumn_def find_None_iff dest: nth_mem)

lemma takeWhile_to_colon:
  assumes "match_cell_ref s = Some (letters, digits)"
  shows "takeWhile (\<lambda>c. c \<noteq> CHR '':'') (s @ CHR '':'' # rest) = s"
proof -
  have s: "s = letters @ digits" "list_all is_upper letters" "list_all is_digit digits"
    using match_cell_ref_Some [OF assms] by simp_all
  have "c \<noteq> CHR '':''" if "c \<in> set s" for c
    using that s by (auto simp: list_all_iff is_upper_def is_digit_def)
  then have "takeWhile (\<lambda>c. c \<noteq> CHR '':'') (s @ CHR '':'' # rest)
      = s @ takeWhile (\<lambda>c. c \<noteq> CHR '':'') (CHR '':'' # rest)"
    by (intro takeWhile_append2) simp
  then show ?thesis by simp
qed

lemma refTopLeft_tableRef:
  "match_cell_ref (t_startCell cfg) = Some (letters, digits) \<Longrightarrow>
   refTopLeft (tableRef cfg sc sr n) = Some (parseInt digits, columnLetterToNumber letters)"
  by (simp add: refTopLeft_def tableRef_def Let_def takeWhile_to_colon)

lemma addTable_ok:
  assumes r: "refTopLeft (tbl_ref model) = Some (row, col)"
    and b: "1 \<le> row" "1 \<le> col" "col + int (length (tbl_columns model)) - 1 \<le> 16384"
    and c: "tbl_columns model \<noteq> []" "[] \<notin> set (tbl_columns model)"
    and d: "\<forall>data \<in> set (tbl_rows model). length data \<le> length (tbl_columns model)"
  shows "\<exists>ws1. addTable ws model = Inr ws1
              \<and> ws_tables ws1 = registerTable model (ws_tables ws)"
proof -
  have ne: "tbl_ref model \<noteq> []"
    using r by (auto simp: refTopLeft_def match_cell_ref_def)
  have w: "1 \<le> int (length (tbl_columns model))" using c(1) by (cases "tbl_columns model") simp_all
  define start where
    "start = (if tbl_headerRow model then storeHeader row col 0 (tbl_columns model) ws else ws)"
  have st: "ws_tables start = ws_tables ws" by (simp add: start_def)
  obtain ws1 where s: "storeRows (length (tbl_columns model))
        (if tbl_headerRow model then row + 1 else row) col (tbl_rows model) start = Inr ws1"
      and t: "ws_tables ws1 = ws_tables start"
    using storeRows_ok [OF d] by blast
  have "addTable ws model = Inr (ws1\<lparr>ws_tables := registerTable model (ws_tables ws1)\<rparr>)"
    using ne r b w s unfolding addTable_def start_def
    by (auto simp add: Let_def unnamedColumn_None [OF c(2)] thenDo_def)
  then show ?thesis using t st by simp
qed

lemma rowFits_ok:
  assumes "rowFits cfg row"
  shows "row \<noteq> JNull" "row \<noteq> JUndefined"
    "length (case row of
               JArr vs \<Rightarrow> vs
             | _ \<Rightarrow> map (\<lambda>col. js_or (lookup row col) (JStr [])) (t_columns cfg))
       \<le> length (t_columns cfg)"
  using assms by (cases row; simp add: rowFits_def)+

text \<open>A table whose rows fit, at a place within the sheet, gets built and
  recorded.\<close>

lemma createTable_registers:
  assumes ne: "rows \<noteq> []"
    and ma: "match_cell_ref (t_startCell cfg) = Some (letters, digits)"
    and b: "1 \<le> parseInt digits" "1 \<le> columnLetterToNumber letters"
      "columnLetterToNumber letters + int (length (t_columns cfg)) - 1 \<le> 16384"
    and c: "t_columns cfg \<noteq> []" "[] \<notin> set (t_columns cfg)"
    and f: "list_all (rowFits cfg) rows"
  shows "\<exists>ws3. createTable ws cfg (JArr rows) = Inr ws3
              \<and> ws_tables ws3 = registerTable (spec_table cfg letters digits rows) (ws_tables ws)"
proof -
  let ?ws1 = "writeHeaders cfg (parseInt digits) (columnLetterToNumber letters) 0 (t_columns cfg) ws"
  let ?trows = "map (\<lambda>row. case row of
                         JArr vs \<Rightarrow> vs
                       | _ \<Rightarrow> map (\<lambda>col. js_or (lookup row col) (JStr [])) (t_columns cfg)) rows"
  have nn: "JNull \<notin> set rows"
    using f rowFits_ok(1) by (auto simp: list_all_iff)
  obtain ws2 where w: "writeDataRows cfg (parseInt digits) (columnLetterToNumber letters) 0 rows ?ws1 = Inr ws2"
    using writeDataRows_ok [OF nn] by blast
  have t: "ws_tables ws2 = ws_tables ws"
    using ws_tables_writeDataRows [OF w] by simp
  have m: "mapThrow (tableRow cfg) rows = Inr ?trows"
  proof (intro mapThrow_ok ballI)
    fix row assume "row \<in> set rows"
    then have "rowFits cfg row" using f by (simp add: list_all_iff)
    then have "row \<noteq> JNull" "row \<noteq> JUndefined" by (rule rowFits_ok)+
    then show "tableRow cfg row =
        Inr (case row of
               JArr vs \<Rightarrow> vs
             | _ \<Rightarrow> map (\<lambda>col. js_or (lookup row col) (JStr [])) (t_columns cfg))"
      by (rule tableRow_ok)
  qed
  have model: "\<lparr>tbl_name = t_tableName cfg,
          tbl_ref = tableRef cfg (columnLetterToNumber letters) (parseInt digits) (length rows),
          tbl_headerRow = True,
          tbl_theme = ''TableStyleMedium9'',
          tbl_showRowStripes = True,
          tbl_columns = t_columns cfg,
          tbl_rows = ?trows\<rparr> = spec_table cfg letters digits rows"
    by (simp add: spec_table_def tableRef_def Let_def)
  have fit: "\<forall>data \<in> set (tbl_rows (spec_table cfg letters digits rows)).
      length data \<le> length (tbl_columns (spec_table cfg letters digits rows))"
  proof
    fix data assume "data \<in> set (tbl_rows (spec_table cfg letters digits rows))"
    then obtain row where "row \<in> set rows" and
      "data = (case row of
                 JArr vs \<Rightarrow> vs
               | _ \<Rightarrow> map (\<lambda>col. js_or (lookup row col) (JStr [])) (t_columns cfg))"
      by (auto simp: spec_table_def)
    then show "length data \<le> length (tbl_columns (spec_table cfg letters digits rows))"
      using f rowFits_ok(3) [of cfg row] by (simp add: list_all_iff spec_table_def)
  qed
  have tl: "refTopLeft (tbl_ref (spec_table cfg letters digits rows))
      = Some (parseInt digits, columnLetterToNumber letters)"
    using refTopLeft_tableRef [OF ma] by (simp add: spec_table_def tableRef_def Let_def)
  obtain ws3 where a: "addTable ws2 (spec_table cfg letters digits rows) = Inr ws3"
      and r: "ws_tables ws3 = registerTable (spec_table cfg letters digits rows) (ws_tables ws2)"
    using addTable_ok [OF tl, of ws2] b c fit by (auto simp: spec_table_def)
  have "createTable ws cfg (JArr rows) = Inr ws3"
    unfolding createTable_rows [OF ne ma] by (simp add: thenDo_def w m model a)
  then show ?thesis using r t by simp
qed

section \<open>What the table builder does with the rows\<close>

text \<open>
  C4, on the input where the code leaves it: the table has the columns P and
  Q, starts at A1 and has the one row [1, 2, 3].  The loop over the rows does
  what the claim says: it writes 1 and 2 into A2 and B2 and ignores the third
  value, C2 stays blank.  But the rows handed to addTable are the rows as
  they came, with the third value, and addTable, which stores them again,
  finds no third column to take the style from: createTable throws and the
  generation fails.
\<close>

theorem table_data_cells:
  "(case writeDataRows
           \<lparr>t_sheet = ''Sheet1'', t_tableName = ''T'', t_startCell = ''A1'',
            t_columns = [''P'', ''Q''], t_style = None\<rparr>
           1 1 0 [JArr [JNum 1, JNum 2, JNum 3]]
           (writeHeaders
              \<lparr>t_sheet = ''Sheet1'', t_tableName = ''T'', t_startCell = ''A1'',
               t_columns = [''P'', ''Q''], t_style = None\<rparr>
              1 1 0 [''P'', ''Q''] (new_worksheet ''Sheet1'')) of
      Inl e \<Rightarrow> []
    | Inr ws2 \<Rightarrow> map (\<lambda>rc. cell_value (ws_cells ws2 rc)) [(2, 1), (2, 2), (2, 3)])
     = [Plain (JNum 1), Plain (JNum 2), Plain JNull]
   \<and> mapThrow
        (tableRow
           \<lparr>t_sheet = ''Sheet1'', t_tableName = ''T'', t_startCell = ''A1'',
            t_columns = [''P'', ''Q''], t_style = None\<rparr>)
        [JArr [JNum 1, JNum 2, JNum 3]]
      = Inr [[JNum 1, JNum 2, JNum 3]]
   \<and> createTable (new_worksheet ''Sheet1'')
        \<lparr>t_sheet = ''Sheet1'', t_tableName = ''T'', t_startCell = ''A1'',
         t_columns = [''P'', ''Q''], t_style = None\<rparr>
        (JArr [JArr [JNum 1, JNum 2, JNum 3]])
      = Inl (JsTypeError (''Cannot read properties of undefined (reading ''
                          @ [CHR 0x27] @ ''style'' @ [CHR 0x27] @ '')''))
   \<and> generateWorkbook simple_lib (JObj [(''tableData'', JArr [JArr [JNum 1, JNum 2, JNum 3]])]) []
        [\<lparr>t_sheet = ''Sheet1'', t_tableName = ''T'', t_startCell = ''A1'',
          t_columns = [''P'', ''Q''], t_style = None\<rparr>]
        None no_options
      = Inl (JsError (''Failed to generate Excel workbook: ''
                      @ ''Cannot read properties of undefined (reading ''
                      @ [CHR 0x27] @ ''style'' @ [CHR 0x27] @ '')''))"
proof -
  let ?cfg = "\<lparr>t_sheet = ''Sheet1'', t_tableName = ''T'', t_startCell = ''A1'',
               t_columns = [''P'', ''Q''], t_style = None\<rparr>"
  have loop: "(case writeDataRows ?cfg 1 1 0 [JArr [JNum 1, JNum 2, JNum 3]]
           (writeHeaders ?cfg 1 1 0 [''P'', ''Q''] (new_worksheet ''Sheet1'')) of
      Inl e \<Rightarrow> []
    | Inr ws2 \<Rightarrow> map (\<lambda>rc. cell_value (ws_cells ws2 rc)) [(2, 1), (2, 2), (2, 3)])
     = [Plain (JNum 1), Plain (JNum 2), Plain JNull]"
    by (simp add: writeDataRow_def modifyCell_def new_worksheet_def blank_cell_def)
  have handed: "mapThrow (tableRow ?cfg) [JArr [JNum 1, JNum 2, JNum 3]]
      = Inr [[JNum 1, JNum 2, JNum 3]]"
    by (simp add: tableRow_def)
  have "(case createTable (new_worksheet ''Sheet1'') ?cfg (JArr [JArr [JNum 1, JNum 2, JNum 3]]) of
           Inl e \<Rightarrow> Some e
         | Inr ws \<Rightarrow> None)
      = Some (JsTypeError (''Cannot read properties of undefined (reading ''
                           @ [CHR 0x27] @ ''style'' @ [CHR 0x27] @ '')''))"
    by code_simp
  then have thrown: "createTable (new_worksheet ''Sheet1'') ?cfg
        (JArr [JArr [JNum 1, JNum 2, JNum 3]])
      = Inl (JsTypeError (''Cannot read properties of undefined (reading ''
                          @ [CHR 0x27] @ ''style'' @ [CHR 0x27] @ '')''))"
    by (simp split: sum.splits)
  have failed: "generateWorkbook simple_lib
        (JObj [(''tableData'', JArr [JArr [JNum 1, JNum 2, JNum 3]])]) [] [?cfg] None no_options
      = Inl (JsError (''Failed to generate Excel workbook: ''
                      @ ''Cannot read properties of undefined (reading ''
                      @ [CHR 0x27] @ ''style'' @ [CHR 0x27] @ '')''))"
    by code_simp
  show ?thesis
    using loop handed thrown failed by (intro conjI)
qed

theorem table_data_cells_witness:
  "tablesAfter (new_worksheet ''Sheet1'')
     \<lparr>t_sheet = ''Sheet1'', t_tableName = ''T'', t_startCell = ''A1'',
      t_columns = [''P'', ''Q''], t_style = None\<rparr>
     (JArr [JArr [JNum 1, JNum 2, JNum 3]]) = None
   \<and> cellAfterTable (new_worksheet ''Sheet1'')
     \<lparr>t_sheet = ''Sheet1'', t_tableName = ''T'', t_startCell = ''A1'',
      t_columns = [''P'', ''Q''], t_style = None\<rparr>
     (JArr [JArr [JNum 1, JNum 2, JNum 3]]) (2, 1) = None"
  using table_data_cells by (simp add: tablesAfter_def cellAfterTable_def)

text \<open>In an object row a key bound to 0 is written as the empty string, as a
  key that the row does not have.\<close>

lemma object_row_falsy_value:
  "cellAfterTable (new_worksheet ''Sheet1'')
     \<lparr>t_sheet = ''Sheet1'', t_tableName = ''T'', t_startCell = ''A1'',
      t_columns = [''P'', ''Q''], t_style = None\<rparr>
     (JArr [JObj [(''P'', JNum 0), (''Q'', JNum 5)]]) (2, 1)
   = Some (Plain (JStr []))"
  by code_simp

section \<open>The table that the table builder records\<close>

text \<open>
  C5, as it holds of the code: for a non-empty data set whose rows are value
  lists of no more values than there are columns, or keyed objects, with a
  start cell that parses and a range within the sheet (rows 1 to 1048576,
  columns 1 to 16384), and with at least one column and no column without a
  name, createTable returns and has recorded one table, in the place of the
  table of that name if the worksheet had one and behind the tables of the
  worksheet if it had none: its range runs from the start cell to the letters
  of column startCol + columns.length - 1 followed by the decimal text of row
  startRow + rows.length, it has its header row, the theme TableStyleMedium9
  with row stripes, the column names as columns and one row per data row.
  With columns P, Q, the rows [1,2] and [3,4] and the start cell A1 the range
  is A1:B3 and the table has the rows [1,2] and [3,4].
\<close>

theorem table_registration:
  "(rows \<noteq> [] \<and> list_all (rowFits cfg) rows
    \<and> match_cell_ref (t_startCell cfg) = Some (letters, digits)
    \<and> 1 \<le> parseInt digits \<and> parseInt digits + int (length rows) \<le> 1048576
    \<and> 1 \<le> columnLetterToNumber letters
    \<and> columnLetterToNumber letters + int (length (t_columns cfg)) - 1 \<le> 16384
    \<and> t_columns cfg \<noteq> [] \<and> [] \<notin> set (t_columns cfg)
    \<longrightarrow> tablesAfter ws cfg (JArr rows)
          = Some (registerTable (spec_table cfg letters digits rows) (ws_tables ws))
        \<and> (list_all (\<lambda>t. tbl_name t \<noteq> t_tableName cfg) (ws_tables ws)
           \<longrightarrow> tablesAfter ws cfg (JArr rows)
                 = Some (ws_tables ws @ [spec_table cfg letters digits rows])))
   \<and> tablesAfter (new_worksheet ''Sheet1'')
        \<lparr>t_sheet = ''Sheet1'', t_tableName = ''T'', t_startCell = ''A1'',
         t_columns = [''P'', ''Q''], t_style = None\<rparr>
        (JArr [JArr [JNum 1, JNum 2], JArr [JNum 3, JNum 4]])
      = Some [\<lparr>tbl_name = ''T'', tbl_ref = ''A1:B3'', tbl_headerRow = True,
               tbl_theme = ''TableStyleMedium9'', tbl_showRowStripes = True,
               tbl_columns = [''P'', ''Q''],
               tbl_rows = [[JNum 1, JNum 2], [JNum 3, JNum 4]]\<rparr>]"
proof -
  have general: "tablesAfter ws cfg (JArr rows)
          = Some (registerTable (spec_table cfg letters digits rows) (ws_tables ws))
        \<and> (list_all (\<lambda>t. tbl_name t \<noteq> t_tableName cfg) (ws_tables ws)
           \<longrightarrow> tablesAfter ws cfg (JArr rows)
                 = Some (ws_tables ws @ [spec_table cfg letters digits rows]))"
    if h: "rows \<noteq> []" "list_all (rowFits cfg) rows"
      "match_cell_ref (t_startCell cfg) = Some (letters, digits)"
      "1 \<le> parseInt digits" "1 \<le> columnLetterToNumber letters"
      "columnLetterToNumber letters + int (length (t_columns cfg)) - 1 \<le> 16384"
      "t_columns cfg \<noteq> []" "[] \<notin> set (t_columns cfg)"
  proof -
    obtain ws3 where "createTable ws cfg (JArr rows) = Inr ws3"
      and "ws_tables ws3 = registerTable (spec_table cfg letters digits rows) (ws_tables ws)"
      using createTable_registers [OF h(1,3,4,5,6,7,8,2)] by blast
    then have t: "tablesAfter ws cfg (JArr rows)
          = Some (registerTable (spec_table cfg letters digits rows) (ws_tables ws))"
      by (simp add: tablesAfter_def)
    have "registerTable (spec_table cfg letters digits rows) (ws_tables ws)
          = ws_tables ws @ [spec_table cfg letters digits rows]"
      if "list_all (\<lambda>t. tbl_name t \<noteq> t_tableName cfg) (ws_tables ws)"
      using that by (auto simp: registerTable_def spec_table_def list_ex_iff list_all_iff)
    then show ?thesis using t by simp
  qed
  have example: "tablesAfter (new_worksheet ''Sheet1'')
        \<lparr>t_sheet = ''Sheet1'', t_tableName = ''T'', t_startCell = ''A1'',
         t_columns = [''P'', ''Q''], t_style = None\<rparr>
        (JArr [JArr [JNum 1, JNum 2], JArr [JNum 3, JNum 4]])
      = Some [\<lparr>tbl_name = ''T'', tbl_ref = ''A1:B3'', tbl_headerRow = True,
               tbl_theme = ''TableStyleMedium9'', tbl_showRowStripes = True,
               tbl_columns = [''P'', ''Q''],
               tbl_rows = [[JNum 1, JNum 2], [JNum 3, JNum 4]]\<rparr>]"
    by code_simp
  show ?thesis using general example by blast
qed

theorem table_registration_witness:
  "[JObj [(''name'', JStr ''bolt''), (''qty'', JNum 0)]] \<noteq> []
   \<and> list_all
        (rowFits \<lparr>t_sheet = ''Stock'', t_tableName = ''Parts'', t_startCell = ''B2'',
                  t_columns = [''name'', ''qty''], t_style = None\<rparr>)
        [JObj [(''name'', JStr ''bolt''), (''qty'', JNum 0)]]
   \<and> match_cell_ref ''B2'' = Some (''B'', ''2'')
   \<and> parseInt ''2'' = 2 \<and> columnLetterToNumber ''B'' = 2
   \<and> tablesAfter (new_worksheet ''Stock'')
        \<lparr>t_sheet = ''Stock'', t_tableName = ''Parts'', t_startCell = ''B2'',
         t_columns = [''name'', ''qty''], t_style = None\<rparr>
        (JArr [JObj [(''name'', JStr ''bolt''), (''qty'', JNum 0)]])
      = Some [\<lparr>tbl_name = ''Parts'', tbl_ref = ''B2:C3'', tbl_headerRow = True,
               tbl_theme = ''TableStyleMedium9'', tbl_showRowStripes = True,
               tbl_columns = [''name'', ''qty''],
               tbl_rows = [[JStr ''bolt'', JStr []]]\<rparr>]"
proof -
  let ?cfg = "\<lparr>t_sheet = ''Stock'', t_tableName = ''Parts'', t_startCell = ''B2'',
               t_columns = [''name'', ''qty''], t_style = None\<rparr>"
  let ?rows = "[JObj [(''name'', JStr ''bolt''), (''qty'', JNum 0)]]"
  have m: "match_cell_ref ''B2'' = Some (''B'', ''2'')"
    by (simp add: match_cell_ref_def is_upper_def is_digit_def)
  have n: "parseInt ''2'' = 2" "columnLetterToNumber ''B'' = 2"
    by code_simp+
  have s: "spec_table ?cfg ''B'' ''2'' ?rows
      = \<lparr>tbl_name = ''Parts'', tbl_ref = ''B2:C3'', tbl_headerRow = True,
         tbl_theme = ''TableStyleMedium9'', tbl_showRowStripes = True,
         tbl_columns = [''name'', ''qty''],
         tbl_rows = [[JStr ''bolt'', JStr []]]\<rparr>"
    by code_simp
  show ?thesis
    using table_registration [of ?rows ?cfg "''B''" "''2''" "new_worksheet ''Stock''"]
    by (simp add: m n s new_worksheet_def rowFits_def registerTable_def)
qed

text \<open>
  The claim C5 as it stands fails: for a start cell that is not capitals
  followed by digits createTable throws its own error, for a data set that
  holds a null row it throws the TypeError of the runtime, and in both cases
  no table is recorded although the data set is not empty.
\<close>

theorem table_registration_counterexample:
  "[JArr [JNum 1, JNum 2], JArr [JNum 3, JNum 4]] \<noteq> []
   \<and> createTable (new_worksheet ''Sheet1'')
        \<lparr>t_sheet = ''Sheet1'', t_tableName = ''T'', t_startCell = ''a1'',
         t_columns = [''P'', ''Q''], t_style = None\<rparr>
        (JArr [JArr [JNum 1, JNum 2], JArr [JNum 3, JNum 4]])
      = Inl (JsError ''Invalid start cell: a1'')
   \<and> tablesAfter (new_worksheet ''Sheet1'')
        \<lparr>t_sheet = ''Sheet1'', t_tableName = ''T'', t_startCell = ''a1'',
         t_columns = [''P'', ''Q''], t_style = None\<rparr>
        (JArr [JArr [JNum 1, JNum 2], JArr [JNum 3, JNum 4]])
      = None
   \<and> [JArr [JNum 1, JNum 2], JNull] \<noteq> []
   \<and> tablesAfter (new_worksheet ''Sheet1'')
        \<lparr>t_sheet = ''Sheet1'', t_tableName = ''T'', t_startCell = ''A1'',
         t_columns = [''P'', ''Q''], t_style = None\<rparr>
        (JArr [JArr [JNum 1, JNum 2], JNull])
      = None"
proof -
  have m: "match_cell_ref ''a1'' = None"
    by (simp add: match_cell_ref_def is_upper_def)
  have 1: "createTable (new_worksheet ''Sheet1'')
        \<lparr>t_sheet = ''Sheet1'', t_tableName = ''T'', t_startCell = ''a1'',
         t_columns = [''P'', ''Q''], t_style = None\<rparr>
        (JArr [JArr [JNum 1, JNum 2], JArr [JNum 3, JNum 4]])
      = Inl (JsError ''Invalid start cell: a1'')"
    using createTable_no_match
      [of "[JArr [JNum 1, JNum 2], JArr [JNum 3, JNum 4]]"
          "\<lparr>t_sheet = ''Sheet1'', t_tableName = ''T'', t_startCell = ''a1'',
            t_columns = [''P'', ''Q''], t_style = None\<rparr>"
          "new_worksheet ''Sheet1''"]
    by (simp add: m)
  have 2: "tablesAfter (new_worksheet ''Sheet1'')
        \<lparr>t_sheet = ''Sheet1'', t_tableName = ''T'', t_startCell = ''A1'',
         t_columns = [''P'', ''Q''], t_style = None\<rparr>
        (JArr [JArr [JNum 1, JNum 2], JNull])
      = None"
    by code_simp
  show ?thesis using 1 2 by (simp add: tablesAfter_def)
qed

section \<open>Properties of the workbook assembler\<close>

lemma thenDo_Inl [simp]: "thenDo (Inl e) f = Inl e"
  by (simp add: thenDo_def)

lemma thenDo_Inr [simp]: "thenDo (Inr x) f = f x"
  by (simp add: thenDo_def)

lemma forEachThrow_fails_at:
  "forEachThrow body before s = Inr s' \<Longrightarrow> body s' x = Inl e \<Longrightarrow>
   forEachThrow body (before @ x # rest) s = Inl e"
  by (induction before arbitrary: s) (auto split: sum.splits)

lemma generateWorkbook_of_try:
  "generateWorkbook L jsonData ms ts tb os =
     (case generateWorkbook_try L jsonData ms ts tb os of
        Inl e \<Rightarrow> Inl (JsError (''Failed to generate Excel workbook: ''
                              @ messageOr e ''Unknown error''))
      | Inr buffer \<Rightarrow> Inr buffer)"
  by (simp add: generateWorkbook_def tryCatch_def split: sum.splits)

lemma processTable_createTable_fails:
  assumes "getNestedValue jsonData ''tableData'' = JArr rows"
    and "\<And>ws. createTable ws cfg (JArr rows) = Inl e"
  shows "processTable jsonData workbook cfg = Inl e"
  using assms by (simp add: processTable_def split: prod.splits)

text \<open>
  C10: when the table data holds a null element and the table has at least
  one column, createTable throws: with a start cell that parses, it is the
  TypeError of reading the first column name from null; generateWorkbook then
  ends in its failure and returns no buffer, whatever the template, the
  mappings and the tables that follow, and with no template and no mappings
  the failure carries the message of that TypeError.
\<close>

theorem null_table_row_rejects_generation:
  "JNull \<in> set rows \<and> t_columns cfg \<noteq> []
     \<and> getNestedValue jsonData ''tableData'' = JArr rows
   \<longrightarrow> tablesAfter ws cfg (JArr rows) = None
       \<and> (match_cell_ref (t_startCell cfg) \<noteq> None
          \<longrightarrow> createTable ws cfg (JArr rows) =
                Inl (JsTypeError (''Cannot read properties of null (reading '' @ [CHR 0x27]
                                    @ hd (t_columns cfg) @ [CHR 0x27] @ '')'')))
       \<and> (\<exists>msg. generateWorkbook L jsonData mappingConfig (cfg # cfgs) templateBuffer options
                   = Inl (JsError (''Failed to generate Excel workbook: '' @ msg)))
       \<and> (match_cell_ref (t_startCell cfg) \<noteq> None
          \<longrightarrow> generateWorkbook L jsonData [] (cfg # cfgs) None options =
                Inl (JsError (''Failed to generate Excel workbook: ''
                                @ ''Cannot read properties of null (reading '' @ [CHR 0x27]
                                @ hd (t_columns cfg) @ [CHR 0x27] @ '')'')))"
proof (intro impI)
  assume a: "JNull \<in> set rows \<and> t_columns cfg \<noteq> []
     \<and> getNestedValue jsonData ''tableData'' = JArr rows"
  then have n: "JNull \<in> set rows" and c: "t_columns cfg \<noteq> []"
    and g: "getNestedValue jsonData ''tableData'' = JArr rows"
    by simp_all
  define e where "e =
     (case match_cell_ref (t_startCell cfg) of
        None \<Rightarrow> JsError (''Invalid start cell: '' @ t_startCell cfg)
      | Some m \<Rightarrow>
          JsTypeError (''Cannot read properties of null (reading '' @ [CHR 0x27]
                          @ hd (t_columns cfg) @ [CHR 0x27] @ '')''))"
  have ct: "createTable w cfg (JArr rows) = Inl e" for w
    using createTable_null_row [OF n c, of w] by (simp add: e_def split: option.splits)
  have pt: "processTable jsonData wb cfg = Inl e" for wb
    using g ct by (rule processTable_createTable_fails)
  have 1: "tablesAfter ws cfg (JArr rows) = None"
    by (simp add: tablesAfter_def ct)
  have 2: "match_cell_ref (t_startCell cfg) \<noteq> None
          \<longrightarrow> createTable ws cfg (JArr rows) =
                Inl (JsTypeError (''Cannot read properties of null (reading '' @ [CHR 0x27]
                                    @ hd (t_columns cfg) @ [CHR 0x27] @ '')''))"
    using ct [of ws] by (auto simp: e_def)
  have "\<exists>err. generateWorkbook_try L jsonData mappingConfig (cfg # cfgs) templateBuffer options
           = Inl err"
    by (auto simp: generateWorkbook_try_def thenDo_def pt split: sum.splits)
  then have 3: "\<exists>msg. generateWorkbook L jsonData mappingConfig (cfg # cfgs) templateBuffer options
                   = Inl (JsError (''Failed to generate Excel workbook: '' @ msg))"
    by (auto simp: generateWorkbook_of_try)
  have "generateWorkbook_try L jsonData [] (cfg # cfgs) None options = Inl e"
    by (simp add: generateWorkbook_try_def loadOrCreate_def pt)
  then have 4: "match_cell_ref (t_startCell cfg) \<noteq> None
          \<longrightarrow> generateWorkbook L jsonData [] (cfg # cfgs) None options =
                Inl (JsError (''Failed to generate Excel workbook: ''
                                @ ''Cannot read properties of null (reading '' @ [CHR 0x27]
                                @ hd (t_columns cfg) @ [CHR 0x27] @ '')''))"
    by (auto simp: generateWorkbook_of_try e_def messageOr_def instanceof_Error_def message_def)
  show "tablesAfter ws cfg (JArr rows) = None
       \<and> (match_cell_ref (t_startCell cfg) \<noteq> None
          \<longrightarrow> createTable ws cfg (JArr rows) =
                Inl (JsTypeError (''Cannot read properties of null (reading '' @ [CHR 0x27]
                                    @ hd (t_columns cfg) @ [CHR 0x27] @ '')'')))
       \<and> (\<exists>msg. generateWorkbook L jsonData mappingConfig (cfg # cfgs) templateBuffer options
                   = Inl (JsError (''Failed to generate Excel workbook: '' @ msg)))
       \<and> (match_cell_ref (t_startCell cfg) \<noteq> None
          \<longrightarrow> generateWorkbook L jsonData [] (cfg # cfgs) None options =
                Inl (JsError (''Failed to generate Excel workbook: ''
                                @ ''Cannot read properties of null (reading '' @ [CHR 0x27]
                                @ hd (t_columns cfg) @ [CHR 0x27] @ '')'')))"
    using 1 2 3 4 by blast
qed

theorem null_table_row_rejects_generation_witness:
  "JNull \<in> set [JArr [JNum 1], JNull]
   \<and> t_columns \<lparr>t_sheet = ''Sheet1'', t_tableName = ''T'', t_startCell = ''A1'',
                 t_columns = [''P''], t_style = None\<rparr> \<noteq> []
   \<and> getNestedValue (JObj [(''tableData'', JArr [JArr [JNum 1], JNull])]) ''tableData''
       = JArr [JArr [JNum 1], JNull]
   \<and> generateWorkbook simple_lib (JObj [(''tableData'', JArr [JArr [JNum 1], JNull])]) []
        [\<lparr>t_sheet = ''Sheet1'', t_tableName = ''T'', t_startCell = ''A1'',
          t_columns = [''P''], t_style = None\<rparr>] None no_options
       = Inl (JsError (''Failed to generate Excel workbook: ''
                         @ ''Cannot read properties of null (reading '' @ [CHR 0x27]
                         @ ''P'' @ [CHR 0x27] @ '')''))"
  using null_table_row_rejects_generation
    [of "[JArr [JNum 1], JNull]"
        "\<lparr>t_sheet = ''Sheet1'', t_tableName = ''T'', t_startCell = ''A1'',
          t_columns = [''P''], t_style = None\<rparr>"
        "JObj [(''tableData'', JArr [JArr [JNum 1], JNull])]"
        "new_worksheet ''Sheet1''" simple_lib "[]" "[]" None no_options]
  by (simp add: getNestedValue_def nested_step_def match_cell_ref_def is_upper_def is_digit_def)

lemma generateWorkbook_try_load_fails:
  "loadOrCreate L tb = Inl e \<Longrightarrow> generateWorkbook_try L jsonData ms ts tb os = Inl e"
  by (simp add: generateWorkbook_try_def)

lemma generateWorkbook_try_mapping_fails:
  "loadOrCreate L tb = Inr wb0 \<Longrightarrow>
   forEachThrow (processMapping L jsonData) ms wb0 = Inl e \<Longrightarrow>
   generateWorkbook_try L jsonData ms ts tb os = Inl e"
  by (simp add: generateWorkbook_try_def)

lemma generateWorkbook_try_table_fails:
  "loadOrCreate L tb = Inr wb0 \<Longrightarrow>
   forEachThrow (processMapping L jsonData) ms wb0 = Inr wb1 \<Longrightarrow>
   forEachThrow (processTable jsonData) ts wb1 = Inl e \<Longrightarrow>
   generateWorkbook_try L jsonData ms ts tb os = Inl e"
  by (simp add: generateWorkbook_try_def)

lemma generateWorkbook_try_write:
  "loadOrCreate L tb = Inr wb0 \<Longrightarrow>
   forEachThrow (processMapping L jsonData) ms wb0 = Inr wb1 \<Longrightarrow>
   forEachThrow (processTable jsonData) ts wb1 = Inr wb2 \<Longrightarrow>
   generateWorkbook_try L jsonData ms ts tb os = xlsx_writeBuffer L (map (applyOptions os) wb2)"
  by (simp add: generateWorkbook_try_def)

lemma generateWorkbook_try_Inr:
  "generateWorkbook_try L jsonData ms ts tb os = Inr buffer \<Longrightarrow>
   \<exists>wb0 wb1 wb2.
     loadOrCreate L tb = Inr wb0
     \<and> forEachThrow (processMapping L jsonData) ms wb0 = Inr wb1
     \<and> forEachThrow (processTable jsonData) ts wb1 = Inr wb2
     \<and> xlsx_writeBuffer L (map (applyOptions os) wb2) = Inr buffer"
  by (auto simp: generateWorkbook_try_def thenDo_def split: sum.splits)

text \<open>
  C8: whichever stage of generateWorkbook throws - the loading of the
  template, the step of some mapping after the earlier ones went through,
  the step of some table (createTable included) after the mappings and the
  earlier tables went through, or the writing of the buffer - the call ends
  in one failure, an Error whose message is the fixed prefix followed by the
  message of what was thrown when that is an Error (and by "Unknown error"
  otherwise); every failure of generateWorkbook is of this form; and a buffer
  is returned only when all four stages went through.
\<close>

theorem generation_failure_is_wrapped:
  "(templateBuffer = Some b \<and> xlsx_load L b = Inl e
    \<longrightarrow> generateWorkbook L jsonData mappingConfig tableConfigs templateBuffer options
        = Inl (JsError (''Failed to generate Excel workbook: '' @ messageOr e ''Unknown error'')))
   \<and> (loadOrCreate L templateBuffer = Inr loaded
      \<and> mappingConfig = before @ mapping # rest
      \<and> forEachThrow (processMapping L jsonData) before loaded = Inr reached
      \<and> processMapping L jsonData reached mapping = Inl e
    \<longrightarrow> generateWorkbook L jsonData mappingConfig tableConfigs templateBuffer options
        = Inl (JsError (''Failed to generate Excel workbook: '' @ messageOr e ''Unknown error'')))
   \<and> (loadOrCreate L templateBuffer = Inr loaded
      \<and> forEachThrow (processMapping L jsonData) mappingConfig loaded = Inr mapped
      \<and> tableConfigs = tbefore @ tableConfig # trest
      \<and> forEachThrow (processTable jsonData) tbefore mapped = Inr reached
      \<and> processTable jsonData reached tableConfig = Inl e
    \<longrightarrow> generateWorkbook L jsonData mappingConfig tableConfigs templateBuffer options
        = Inl (JsError (''Failed to generate Excel workbook: '' @ messageOr e ''Unknown error'')))
   \<and> (loadOrCreate L templateBuffer = Inr loaded
      \<and> forEachThrow (processMapping L jsonData) mappingConfig loaded = Inr mapped
      \<and> forEachThrow (processTable jsonData) tableConfigs mapped = Inr built
      \<and> xlsx_writeBuffer L (map (applyOptions options) built) = Inl e
    \<longrightarrow> generateWorkbook L jsonData mappingConfig tableConfigs templateBuffer options
        = Inl (JsError (''Failed to generate Excel workbook: '' @ messageOr e ''Unknown error'')))
   \<and> (instanceof_Error e \<longrightarrow> messageOr e ''Unknown error'' = message e)
   \<and> (\<forall>err. generateWorkbook L jsonData mappingConfig tableConfigs templateBuffer options = Inl err
        \<longrightarrow> (\<exists>msg. err = JsError (''Failed to generate Excel workbook: '' @ msg)))
   \<and> (\<forall>buffer.
        generateWorkbook L jsonData mappingConfig tableConfigs templateBuffer options = Inr buffer
        \<longrightarrow> (\<exists>wb0 wb1 wb2.
              loadOrCreate L templateBuffer = Inr wb0
              \<and> forEachThrow (processMapping L jsonData) mappingConfig wb0 = Inr wb1
              \<and> forEachThrow (processTable jsonData) tableConfigs wb1 = Inr wb2
              \<and> xlsx_writeBuffer L (map (applyOptions options) wb2) = Inr buffer))"
proof -
  let ?G = "generateWorkbook L jsonData mappingConfig tableConfigs templateBuffer options"
  let ?T = "generateWorkbook_try L jsonData mappingConfig tableConfigs templateBuffer options"
  let ?W = "Inl (JsError (''Failed to generate Excel workbook: '' @ messageOr e ''Unknown error''))
              :: js_thrown + buffer"
  have wrap: "?T = Inl e \<Longrightarrow> ?G = ?W"
    by (simp add: generateWorkbook_of_try)
  have 1: "templateBuffer = Some b \<and> xlsx_load L b = Inl e \<longrightarrow> ?G = ?W"
  proof
    assume "templateBuffer = Some b \<and> xlsx_load L b = Inl e"
    then have "loadOrCreate L templateBuffer = Inl e" by (simp add: loadOrCreate_def)
    then show "?G = ?W" by (intro wrap generateWorkbook_try_load_fails)
  qed
  have 2: "loadOrCreate L templateBuffer = Inr loaded
      \<and> mappingConfig = before @ mapping # rest
      \<and> forEachThrow (processMapping L jsonData) before loaded = Inr reached
      \<and> processMapping L jsonData reached mapping = Inl e \<longrightarrow> ?G = ?W"
  proof
    assume a: "loadOrCreate L templateBuffer = Inr loaded
      \<and> mappingConfig = before @ mapping # rest
      \<and> forEachThrow (processMapping L jsonData) before loaded = Inr reached
      \<and> processMapping L jsonData reached mapping = Inl e"
    then have "forEachThrow (processMapping L jsonData) mappingConfig loaded = Inl e"
      using forEachThrow_fails_at [of "processMapping L jsonData" before loaded reached mapping e rest]
      by simp
    with a show "?G = ?W" by (intro wrap generateWorkbook_try_mapping_fails [of L _ loaded]) simp_all
  qed
  have 3: "loadOrCreate L templateBuffer = Inr loaded
      \<and> forEachThrow (processMapping L jsonData) mappingConfig loaded = Inr mapped
      \<and> tableConfigs = tbefore @ tableConfig # trest
      \<and> forEachThrow (processTable jsonData) tbefore mapped = Inr reached
      \<and> processTable jsonData reached tableConfig = Inl e \<longrightarrow> ?G = ?W"
  proof
    assume a: "loadOrCreate L templateBuffer = Inr loaded
      \<and> forEachThrow (processMapping L jsonData) mappingConfig loaded = Inr mapped
      \<and> tableConfigs = tbefore @ tableConfig # trest
      \<and> forEachThrow (processTable jsonData) tbefore mapped = Inr reached
      \<and> processTable jsonData reached tableConfig = Inl e"
    then have "forEachThrow (processTable jsonData) tableConfigs mapped = Inl e"
      using forEachThrow_fails_at [of "processTable jsonData" tbefore mapped reached tableConfig e trest]
      by simp
    with a show "?G = ?W"
      by (intro wrap generateWorkbook_try_table_fails [of L _ loaded _ _ mapped]) simp_all
  qed
  have 4: "loadOrCreate L templateBuffer = Inr loaded
      \<and> forEachThrow (processMapping L jsonData) mappingConfig loaded = Inr mapped
      \<and> forEachThrow (processTable jsonData) tableConfigs mapped = Inr built
      \<and> xlsx_writeBuffer L (map (applyOptions options) built) = Inl e \<longrightarrow> ?G = ?W"
  proof
    assume a: "loadOrCreate L templateBuffer = Inr loaded
      \<and> forEachThrow (processMapping L jsonData) mappingConfig loaded = Inr mapped
      \<and> forEachThrow (processTable jsonData) tableConfigs mapped = Inr built
      \<and> xlsx_writeBuffer L (map (applyOptions options) built) = Inl e"
    then have "?T = Inl e"
      using generateWorkbook_try_write [of L templateBuffer loaded jsonData mappingConfig
          mapped tableConfigs built options]
      by simp
    then show "?G = ?W" by (rule wrap)
  qed
  have 5: "instanceof_Error e \<longrightarrow> messageOr e ''Unknown error'' = message e"
    by (simp add: messageOr_def)
  have 6: "\<forall>err. ?G = Inl err
        \<longrightarrow> (\<exists>msg. err = JsError (''Failed to generate Excel workbook: '' @ msg))"
    by (auto simp: generateWorkbook_of_try split: sum.splits)
  have 7: "\<forall>buffer. ?G = Inr buffer
        \<longrightarrow> (\<exists>wb0 wb1 wb2.
              loadOrCreate L templateBuffer = Inr wb0
              \<and> forEachThrow (processMapping L jsonData) mappingConfig wb0 = Inr wb1
              \<and> forEachThrow (processTable jsonData) tableConfigs wb1 = Inr wb2
              \<and> xlsx_writeBuffer L (map (applyOptions options) wb2) = Inr buffer)"
  proof (intro allI impI)
    fix buffer assume "?G = Inr buffer"
    then have "?T = Inr buffer"
      by (auto simp: generateWorkbook_of_try split: sum.splits)
    then show "\<exists>wb0 wb1 wb2.
              loadOrCreate L templateBuffer = Inr wb0
              \<and> forEachThrow (processMapping L jsonData) mappingConfig wb0 = Inr wb1
              \<and> forEachThrow (processTable jsonData) tableConfigs wb1 = Inr wb2
              \<and> xlsx_writeBuffer L (map (applyOptions options) wb2) = Inr buffer"
      by (rule generateWorkbook_try_Inr)
  qed
  show ?thesis
    using 1 2 3 4 5 6 7 by blast
qed

theorem generation_failure_is_wrapped_witness:
  "xlsx_load simple_lib [37, 80] = Inl (JsError ''Corrupted zip'')
   \<and> instanceof_Error (JsError ''Corrupted zip'')
   \<and> generateWorkbook simple_lib (JObj []) [] [] (Some [37, 80]) no_options
       = Inl (JsError ''Failed to generate Excel workbook: Corrupted zip'')
   \<and> loadOrCreate simple_lib None = Inr [new_worksheet ''Sheet1'']
   \<and> processTable (JObj [(''tableData'', JArr [JArr [JNum 1]])]) [new_worksheet ''Sheet1'']
        \<lparr>t_sheet = ''Sheet1'', t_tableName = ''T'', t_startCell = ''1A'',
         t_columns = [''P''], t_style = None\<rparr>
       = Inl (JsError ''Invalid start cell: 1A'')
   \<and> generateWorkbook simple_lib (JObj [(''tableData'', JArr [JArr [JNum 1]])]) []
        [\<lparr>t_sheet = ''Sheet1'', t_tableName = ''T'', t_startCell = ''1A'',
          t_columns = [''P''], t_style = None\<rparr>] None no_options
       = Inl (JsError ''Failed to generate Excel workbook: Invalid start cell: 1A'')"
proof -
  let ?cfg = "\<lparr>t_sheet = ''Sheet1'', t_tableName = ''T'', t_startCell = ''1A'',
         t_columns = [''P''], t_style = None\<rparr>"
  let ?doc = "JObj [(''tableData'', JArr [JArr [JNum 1]])]"
  have l: "xlsx_load simple_lib [37, 80] = Inl (JsError ''Corrupted zip'')"
    by (simp add: simple_lib_def)
  have c: "loadOrCreate simple_lib None = Inr [new_worksheet ''Sheet1'']"
    by (simp add: loadOrCreate_def addWorksheet_def)
  have m: "match_cell_ref ''1A'' = None"
    by (simp add: match_cell_ref_def is_upper_def)
  have g: "getNestedValue ?doc ''tableData'' = JArr [JArr [JNum 1]]"
    by (simp add: getNestedValue_def nested_step_def)
  have t: "processTable ?doc [new_worksheet ''Sheet1''] ?cfg = Inl (JsError ''Invalid start cell: 1A'')"
    by (simp add: processTable_def g createTable_no_match m split: prod.splits)
  have e: "messageOr (JsError msg) ''Unknown error'' = msg" for msg
    by (simp add: messageOr_def instanceof_Error_def message_def)
  show ?thesis
    using generation_failure_is_wrapped
      [where templateBuffer = "Some [37, 80]" and b = "[37, 80]" and L = simple_lib
         and e = "JsError ''Corrupted zip''" and jsonData = "JObj []" and mappingConfig = "[]"
         and tableConfigs = "[]" and options = no_options]
      generation_failure_is_wrapped
      [where templateBuffer = None and L = simple_lib and jsonData = ?doc
         and e = "JsError ''Invalid start cell: 1A''" and mappingConfig = "[]"
         and tableConfigs = "[?cfg]" and options = no_options
         and loaded = "[new_worksheet ''Sheet1'']" and mapped = "[new_worksheet ''Sheet1'']"
         and reached = "[new_worksheet ''Sheet1'']" and tbefore = "[]" and tableConfig = ?cfg
         and trest = "[]"]
    by (simp add: l c t e instanceof_Error_def)
qed

section \<open>Properties of the template inspector\<close>




section \<open>Properties of bulk generation\<close>

lemma bulkLoop_collects:
  "bulkLoop L i requests results errors =
     (results @ concat (map (\<lambda>(k, request). case bulkItem L request of
                                                Inr buffer \<Rightarrow> [resultEntry k request buffer]
                                              | Inl err \<Rightarrow> [])
                          (enumerate i requests)),
      errors @ concat (map (\<lambda>(k, request). case bulkItem L request of
                                               Inr buffer \<Rightarrow> []
                                             | Inl err \<Rightarrow> [errorEntry k err])
                         (enumerate i requests)))"
  by (induction requests arbitrary: i results errors) (auto split: sum.splits)

lemma collected_lengths:
  "length (concat (map (\<lambda>(k, request). case f request of
                                          Inr buffer \<Rightarrow> [g k request buffer]
                                        | Inl err \<Rightarrow> []) (enumerate i requests)))
   + length (concat (map (\<lambda>(k, request). case f request of
                                            Inr buffer \<Rightarrow> []
                                          | Inl err \<Rightarrow> [h k err]) (enumerate i requests)))
   = length requests"
  by (induction requests arbitrary: i) (auto split: sum.splits)

lemma result_indices:
  "map r_index (concat (map (\<lambda>(k, request). case bulkItem L request of
                                                Inr buffer \<Rightarrow> [resultEntry k request buffer]
                                              | Inl err \<Rightarrow> []) xs))
   = concat (map (\<lambda>(k, request). case bulkItem L request of
                                     Inr buffer \<Rightarrow> [k]
                                   | Inl err \<Rightarrow> []) xs)"
  by (induction xs) (auto simp: resultEntry_def split: sum.splits)

lemma error_indices:
  "map e_index (concat (map (\<lambda>(k, request). case bulkItem L request of
                                               Inr buffer \<Rightarrow> []
                                             | Inl err \<Rightarrow> [errorEntry k err]) xs))
   = concat (map (\<lambda>(k, request). case bulkItem L request of
                                     Inr buffer \<Rightarrow> []
                                   | Inl err \<Rightarrow> [k]) xs)"
  by (induction xs) (auto simp: errorEntry_def split: sum.splits)

lemma increasing_Cons:
  "sorted_wrt (<) rest \<Longrightarrow> \<forall>n \<in> set rest. Suc i \<le> n \<Longrightarrow>
   sorted_wrt (<) (i # rest) \<and> (\<forall>n \<in> set (i # rest). i \<le> n)"
  by auto

lemma increasing_skip: "\<forall>n \<in> set rest. Suc i \<le> n \<Longrightarrow> \<forall>n \<in> set rest. i \<le> (n::nat)"
  by auto

lemma picked_indices_increase:
  "sorted_wrt (<) (concat (map (\<lambda>(k, request). pick request k) (enumerate i requests)))
   \<and> (\<forall>n \<in> set (concat (map (\<lambda>(k, request). pick request k) (enumerate i requests))). i \<le> n)"
  if "\<And>request k. pick request k = [k] \<or> pick request k = []"
proof (induction requests arbitrary: i)
  case Nil
  then show ?case by simp
next
  case (Cons request requests)
  let ?rest = "concat (map (\<lambda>(k, request). pick request k) (enumerate (Suc i) requests))"
  have ih: "sorted_wrt (<) ?rest" "\<forall>n \<in> set ?rest. Suc i \<le> n"
    using Cons [of "Suc i"] by blast+
  have unfold: "concat (map (\<lambda>(k, request). pick request k) (enumerate i (request # requests)))
      = pick request i @ ?rest"
    by simp
  have "pick request i = [i] \<or> pick request i = []" by (rule that)
  then show ?case
  proof
    assume "pick request i = [i]"
    then have "concat (map (\<lambda>(k, request). pick request k) (enumerate i (request # requests)))
      = i # ?rest"
      by (simp only: unfold append_Cons append_Nil)
    with increasing_Cons [OF ih] show ?thesis by metis
  next
    assume "pick request i = []"
    then have "concat (map (\<lambda>(k, request). pick request k) (enumerate i (request # requests)))
      = ?rest"
      by (simp only: unfold append_Nil)
    with ih(1) increasing_skip [OF ih(2)] show ?thesis by metis
  qed
qed

lemma result_indices_increase:
  "sorted_wrt (<) (map r_index (concat (map (\<lambda>(k, request). case bulkItem L request of
                                                Inr buffer \<Rightarrow> [resultEntry k request buffer]
                                              | Inl err \<Rightarrow> [])
                          (enumerate i requests))))"
  unfolding result_indices
  using picked_indices_increase
    [of "\<lambda>request k. case bulkItem L request of Inr buffer \<Rightarrow> [k] | Inl err \<Rightarrow> []" i requests]
  by (auto split: sum.splits)

lemma error_indices_increase:
  "sorted_wrt (<) (map e_index (concat (map (\<lambda>(k, request). case bulkItem L request of
                                               Inr buffer \<Rightarrow> []
                                             | Inl err \<Rightarrow> [errorEntry k err])
                         (enumerate i requests))))"
  unfolding error_indices
  using picked_indices_increase
    [of "\<lambda>request k. case bulkItem L request of Inr buffer \<Rightarrow> [] | Inl err \<Rightarrow> [k]" i requests]
  by (auto split: sum.splits)

text \<open>
  C6: for a non-empty batch the response is the success envelope; its results
  are, in the order of the requests, one entry with the index and the buffer
  of each request whose generation returned, and its errors, in the order of
  the requests, one entry with the index and the message of each request
  whose generation threw; every request is in exactly one of the two, the
  indices grow strictly in both, and the summary counts them.  When of three
  requests the one at index 1 throws and the other two return, there are two
  results and one error, and the index of that error is 1.
\<close>

theorem bulkGenerate_collects_each_item:
  "(requests \<noteq> [] \<longrightarrow>
      resultsOf (bulkGenerate L requests)
        = concat (map (\<lambda>(i, request). case bulkItem L request of
                                          Inr buffer \<Rightarrow> [resultEntry i request buffer]
                                        | Inl err \<Rightarrow> [])
                    (enumerate 0 requests))
      \<and> errorsOf (bulkGenerate L requests)
        = concat (map (\<lambda>(i, request). case bulkItem L request of
                                          Inr buffer \<Rightarrow> []
                                        | Inl err \<Rightarrow> [errorEntry i err])
                    (enumerate 0 requests))
      \<and> length (resultsOf (bulkGenerate L requests))
          + length (errorsOf (bulkGenerate L requests)) = length requests
      \<and> sorted_wrt (<) (map r_index (resultsOf (bulkGenerate L requests)))
      \<and> sorted_wrt (<) (map e_index (errorsOf (bulkGenerate L requests)))
      \<and> (\<exists>msg. bulkGenerate L requests
            = Json200 True msg (resultsOf (bulkGenerate L requests))
                (errorsOf (bulkGenerate L requests))
                \<lparr>total = length requests,
                 successful = length (resultsOf (bulkGenerate L requests)),
                 failed = length (errorsOf (bulkGenerate L requests))\<rparr>))
   \<and> (bulkItem L first = Inr b0 \<and> bulkItem L second = Inl e \<and> bulkItem L third = Inr b2
      \<longrightarrow> length (resultsOf (bulkGenerate L [first, second, third])) = 2
        \<and> length (errorsOf (bulkGenerate L [first, second, third])) = 1
        \<and> e_index (errorsOf (bulkGenerate L [first, second, third]) ! 0) = 1
        \<and> e_error (errorsOf (bulkGenerate L [first, second, third]) ! 0)
            = messageOr e ''Unknown error''
        \<and> map r_index (resultsOf (bulkGenerate L [first, second, third])) = [0, 2]
        \<and> map r_data (resultsOf (bulkGenerate L [first, second, third])) = [b0, b2])"
proof (intro conjI impI)
  assume ne: "requests \<noteq> []"
  let ?R = "concat (map (\<lambda>(i, request). case bulkItem L request of
                                          Inr buffer \<Rightarrow> [resultEntry i request buffer]
                                        | Inl err \<Rightarrow> [])
                    (enumerate 0 requests))"
  let ?E = "concat (map (\<lambda>(i, request). case bulkItem L request of
                                          Inr buffer \<Rightarrow> []
                                        | Inl err \<Rightarrow> [errorEntry i err])
                    (enumerate 0 requests))"
  have loop: "bulkLoop L 0 requests [] [] = (?R, ?E)"
    by (simp add: bulkLoop_collects)
  show r: "resultsOf (bulkGenerate L requests) = ?R"
    using ne by (simp add: bulkGenerate_def loop)
  show e: "errorsOf (bulkGenerate L requests) = ?E"
    using ne by (simp add: bulkGenerate_def loop)
  show "length (resultsOf (bulkGenerate L requests))
          + length (errorsOf (bulkGenerate L requests)) = length requests"
    unfolding r e by (rule collected_lengths)
  show "sorted_wrt (<) (map r_index (resultsOf (bulkGenerate L requests)))"
    unfolding r by (rule result_indices_increase)
  show "sorted_wrt (<) (map e_index (errorsOf (bulkGenerate L requests)))"
    unfolding e by (rule error_indices_increase)
  show "\<exists>msg. bulkGenerate L requests
            = Json200 True msg (resultsOf (bulkGenerate L requests))
                (errorsOf (bulkGenerate L requests))
                \<lparr>total = length requests,
                 successful = length (resultsOf (bulkGenerate L requests)),
                 failed = length (errorsOf (bulkGenerate L requests))\<rparr>"
    using ne by (simp add: bulkGenerate_def loop)
next
  assume a: "bulkItem L first = Inr b0 \<and> bulkItem L second = Inl e \<and> bulkItem L third = Inr b2"
  then have loop: "bulkLoop L 0 [first, second, third] [] [] =
      ([resultEntry 0 first b0, resultEntry 2 third b2], [errorEntry 1 e])"
    by (simp add: numeral_2_eq_2)
  show "length (resultsOf (bulkGenerate L [first, second, third])) = 2"
    "length (errorsOf (bulkGenerate L [first, second, third])) = 1"
    "e_index (errorsOf (bulkGenerate L [first, second, third]) ! 0) = 1"
    "e_error (errorsOf (bulkGenerate L [first, second, third]) ! 0) = messageOr e ''Unknown error''"
    "map r_index (resultsOf (bulkGenerate L [first, second, third])) = [0, 2]"
    "map r_data (resultsOf (bulkGenerate L [first, second, third])) = [b0, b2]"
    by (simp_all add: bulkGenerate_def loop resultEntry_def errorEntry_def del: bulkLoop.simps)
qed

theorem bulkGenerate_collects_each_item_witness:
  "[\<lparr>b_jsonData = JObj [(''name'', JStr ''John'')],
      b_mappingConfig = Some [\<lparr>m_sheet = ''Sheet1'', m_cell = ''A1'', m_fieldName = ''name'',
                               m_style = None, m_formula = None, m_format = None\<rparr>],
      b_tables = None, b_options = None, b_fileName = None\<rparr>,
     \<lparr>b_jsonData = JObj [], b_mappingConfig = None,
      b_tables = None, b_options = None, b_fileName = None\<rparr>,
     \<lparr>b_jsonData = JObj [(''name'', JStr ''Jane'')],
      b_mappingConfig = Some [\<lparr>m_sheet = ''People'', m_cell = ''B2'', m_fieldName = ''name'',
                               m_style = None, m_formula = None, m_format = None\<rparr>],
      b_tables = None, b_options = None, b_fileName = Some ''jane.xlsx''\<rparr>] \<noteq> []
   \<and> bulkItem simple_lib
        \<lparr>b_jsonData = JObj [(''name'', JStr ''John'')],
         b_mappingConfig = Some [\<lparr>m_sheet = ''Sheet1'', m_cell = ''A1'', m_fieldName = ''name'',
                                  m_style = None, m_formula = None, m_format = None\<rparr>],
         b_tables = None, b_options = None, b_fileName = None\<rparr> = Inr [80, 6]
   \<and> bulkItem simple_lib
        \<lparr>b_jsonData = JObj [], b_mappingConfig = None,
         b_tables = None, b_options = None, b_fileName = None\<rparr>
       = Inl (JsError ''Failed to generate Excel workbook: mappingConfig is not iterable'')
   \<and> bulkItem simple_lib
        \<lparr>b_jsonData = JObj [(''name'', JStr ''Jane'')],
         b_mappingConfig = Some [\<lparr>m_sheet = ''People'', m_cell = ''B2'', m_fieldName = ''name'',
                                  m_style = None, m_formula = None, m_format = None\<rparr>],
         b_tables = None, b_options = None, b_fileName = Some ''jane.xlsx''\<rparr> = Inr [80, 6, 6]
   \<and> length (resultsOf (bulkGenerate simple_lib
        [\<lparr>b_jsonData = JObj [(''name'', JStr ''John'')],
          b_mappingConfig = Some [\<lparr>m_sheet = ''Sheet1'', m_cell = ''A1'', m_fieldName = ''name'',
                                   m_style = None, m_formula = None, m_format = None\<rparr>],
          b_tables = None, b_options = None, b_fileName = None\<rparr>,
         \<lparr>b_jsonData = JObj [], b_mappingConfig = None,
          b_tables = None, b_options = None, b_fileName = None\<rparr>,
         \<lparr>b_jsonData = JObj [(''name'', JStr ''Jane'')],
          b_mappingConfig = Some [\<lparr>m_sheet = ''People'', m_cell = ''B2'', m_fieldName = ''name'',
                                   m_style = None, m_formula = None, m_format = None\<rparr>],
          b_tables = None, b_options = None, b_fileName = Some ''jane.xlsx''\<rparr>])) = 2
   \<and> e_index (errorsOf (bulkGenerate simple_lib
        [\<lparr>b_jsonData = JObj [(''name'', JStr ''John'')],
          b_mappingConfig = Some [\<lparr>m_sheet = ''Sheet1'', m_cell = ''A1'', m_fieldName = ''name'',
                                   m_style = None, m_formula = None, m_format = None\<rparr>],
          b_tables = None, b_options = None, b_fileName = None\<rparr>,
         \<lparr>b_jsonData = JObj [], b_mappingConfig = None,
          b_tables = None, b_options = None, b_fileName = None\<rparr>,
         \<lparr>b_jsonData = JObj [(''name'', JStr ''Jane'')],
          b_mappingConfig = Some [\<lparr>m_sheet = ''People'', m_cell = ''B2'', m_fieldName = ''name'',
                                   m_style = None, m_formula = None, m_format = None\<rparr>],
          b_tables = None, b_options = None, b_fileName = Some ''jane.xlsx''\<rparr>]) ! 0) = 1"
proof -
  let ?r0 = "\<lparr>b_jsonData = JObj [(''name'', JStr ''John'')],
      b_mappingConfig = Some [\<lparr>m_sheet = ''Sheet1'', m_cell = ''A1'', m_fieldName = ''name'',
                               m_style = None, m_formula = None, m_format = None\<rparr>],
      b_tables = None, b_options = None, b_fileName = None\<rparr>"
  let ?r1 = "\<lparr>b_jsonData = JObj [], b_mappingConfig = None,
      b_tables = None, b_options = None, b_fileName = None\<rparr>"
  let ?r2 = "\<lparr>b_jsonData = JObj [(''name'', JStr ''Jane'')],
      b_mappingConfig = Some [\<lparr>m_sheet = ''People'', m_cell = ''B2'', m_fieldName = ''name'',
                               m_style = None, m_formula = None, m_format = None\<rparr>],
      b_tables = None, b_options = None, b_fileName = Some ''jane.xlsx''\<rparr>"
  have i0: "bulkItem simple_lib ?r0 = Inr [80, 6]"
    by code_simp
  have i1: "bulkItem simple_lib ?r1
      = Inl (JsError ''Failed to generate Excel workbook: mappingConfig is not iterable'')"
    by code_simp
  have i2: "bulkItem simple_lib ?r2 = Inr [80, 6, 6]"
    by code_simp
  show ?thesis
    using bulkGenerate_collects_each_item
      [of "[?r0, ?r1, ?r2]" simple_lib ?r0 "[80, 6]" ?r1
          "JsError ''Failed to generate Excel workbook: mappingConfig is not iterable''"
          ?r2 "[80, 6, 6]"] i0 i1 i2
    by (simp add: errorEntry_def)
qed

end
